theory Spec2Isabelle
  imports Complex_Main
begin

section \<open>Shared vocabulary\<close>

text \<open>
  The repository is a pandas/statsmodels pipeline.  Exceptions of the Python code are
  values of \<open>py_error\<close>; a function that can raise returns \<open>py_error + 'a\<close>.
\<close>

datatype py_error =
    KeyError string
  | IndexError
  | ValueError string
  | AttributeError string
  | TypeError string
  | MergeError

text \<open>
  A numpy \<open>float64\<close> is one of: a finite number, plus or minus infinity, or NaN.
  Rounding and overflow of finite results are not modelled (finite numbers are reals);
  the exceptional values and the way division by zero produces them are.  numpy's
  division never raises: \<open>x / 0.0\<close> is \<open>inf\<close>, \<open>-inf\<close> or \<open>nan\<close> (with a
  warning).  The zero denominators of this program come from \<open>1 - alpha1\<close>, which is
  \<open>+0.0\<close>, so the sign of the quotient is the sign of the numerator.
\<close>

datatype npfloat = Finite real | PosInf | NegInf | NaN

fun np_sub :: "npfloat \<Rightarrow> npfloat \<Rightarrow> npfloat" where
  "np_sub NaN b = NaN"
| "np_sub a NaN = NaN"
| "np_sub (Finite x) (Finite y) = Finite (x - y)"
| "np_sub (Finite x) PosInf = NegInf"
| "np_sub (Finite x) NegInf = PosInf"
| "np_sub PosInf PosInf = NaN"
| "np_sub PosInf b = PosInf"
| "np_sub NegInf NegInf = NaN"
| "np_sub NegInf b = NegInf"

fun np_div :: "npfloat \<Rightarrow> npfloat \<Rightarrow> npfloat" where
  "np_div NaN b = NaN"
| "np_div a NaN = NaN"
| "np_div (Finite x) (Finite y) =
     (if y \<noteq> 0 then Finite (x / y)
      else if x = 0 then NaN
      else if 0 < x then PosInf else NegInf)"
| "np_div (Finite x) b = Finite 0"
| "np_div PosInf (Finite y) = (if 0 \<le> y then PosInf else NegInf)"
| "np_div NegInf (Finite y) = (if 0 \<le> y then NegInf else PosInf)"
| "np_div a b = NaN"

definition is_inf_or_nan :: "npfloat \<Rightarrow> bool" where
  "is_inf_or_nan v = (case v of Finite x \<Rightarrow> False | _ \<Rightarrow> True)"

section \<open>analytics.py: class analyze\<close>

text \<open>
  A statsmodels results object, as far as \<open>analyze\<close> reads it: \<open>params\<close> is the
  pandas Series of point estimates (regressor name, value), \<open>resid\<close> stands for the
  rest of the fit.  What statsmodels itself computes from a results object
  (\<open>summary()\<close>, \<open>t_test(...)\<close>, \<open>acorr_breusch_godfrey(results, nlags)\<close>) is a
  parameter of the model.
\<close>

record fitresult =
  params :: "(string \<times> npfloat) list"
  resid :: "real list"

record statsmodels =
  summary :: "fitresult \<Rightarrow> string"
  t_test :: "fitresult \<Rightarrow> string \<Rightarrow> string"
  acorr_breusch_godfrey :: "fitresult \<Rightarrow> nat \<Rightarrow> npfloat \<times> npfloat \<times> npfloat \<times> npfloat"

text \<open>\<open>params[name]\<close> raises KeyError on a missing label; \<open>params.get(name, 0)\<close> does not.\<close>

definition series_getitem :: "(string \<times> npfloat) list \<Rightarrow> string \<Rightarrow> py_error + npfloat" where
  "series_getitem s name = (case map_of s name of None \<Rightarrow> Inl (KeyError name) | Some v \<Rightarrow> Inr v)"

definition series_get :: "(string \<times> npfloat) list \<Rightarrow> string \<Rightarrow> npfloat \<Rightarrow> npfloat" where
  "series_get s name dflt = (case map_of s name of None \<Rightarrow> dflt | Some v \<Rightarrow> v)"

definition estructural_params ::
  "fitresult \<Rightarrow> py_error + (npfloat \<times> npfloat \<times> npfloat \<times> npfloat)" where
  "estructural_params results =
     (case series_getitem (params results) ''selic_target_lag'' of
        Inl e \<Rightarrow> Inl e
      | Inr alpha1 \<Rightarrow>
          (case series_getitem (params results) ''inf_dev'' of
             Inl e \<Rightarrow> Inl e
           | Inr c \<Rightarrow>
               (let alpha2 = np_div c (np_sub (Finite 1) alpha1);
                    alpha3 = np_div (series_get (params results) ''output_gap_lag'' (Finite 0))
                               (np_sub (Finite 1) alpha1);
                    alpha4 = np_div (series_get (params results) ''exchange_rate_var_lag'' (Finite 0))
                               (np_sub (Finite 1) alpha1)
                in Inr (alpha1, alpha2, alpha3, alpha4))))"

definition lm_value :: "statsmodels \<Rightarrow> fitresult \<Rightarrow> npfloat" where
  "lm_value lib results =
     (case acorr_breusch_godfrey lib results 4 of (t0, t1, t2, t3) \<Rightarrow> t3)"

text \<open>
  The report of \<open>summarize_results\<close> is a formatted string; the model keeps the values
  that are formatted into it, in the order of the template.
\<close>

record report =
  rep_alpha1 :: npfloat
  rep_alpha2 :: npfloat
  rep_alpha3 :: npfloat
  rep_alpha4 :: npfloat
  rep_lm_stat :: npfloat
  rep_test :: string
  rep_summary :: string

definition summarize_results :: "statsmodels \<Rightarrow> fitresult \<Rightarrow> py_error + report" where
  "summarize_results lib results =
     (let summ = summary lib results in
      case estructural_params results of
        Inl e \<Rightarrow> Inl e
      | Inr (alpha1, alpha2, alpha3, alpha4) \<Rightarrow>
          (let test = t_test lib results ''inf_dev + selic_target_lag = 1'';
               lm_stat = lm_value lib results
           in Inr \<lparr>rep_alpha1 = alpha1, rep_alpha2 = alpha2, rep_alpha3 = alpha3,
                    rep_alpha4 = alpha4, rep_lm_stat = lm_stat, rep_test = test,
                    rep_summary = summ\<rparr>))"

section \<open>pipeline.py: Pipeline.run\_analysis\<close>

text \<open>\<open>res_list[-1]\<close>: the last element, IndexError on an empty list.\<close>

definition last_item :: "'a list \<Rightarrow> py_error + 'a" where
  "last_item xs = (if xs = [] then Inl IndexError else Inr (last xs))"

text \<open>
  \<open>results\<close> is a dict from (source, year range) to the list of fitted results; a dict
  iterates in insertion order, so it is an association list here.  Any exception of
  the loop body is logged and raised again.
\<close>

fun run_analysis ::
  "statsmodels \<Rightarrow> ('k \<times> fitresult list) list \<Rightarrow> py_error + ('k \<times> report) list" where
  "run_analysis lib [] = Inr []"
| "run_analysis lib ((key, res_list) # rest) =
     (case last_item res_list of
        Inl e \<Rightarrow> Inl e
      | Inr r \<Rightarrow>
          (case summarize_results lib r of
             Inl e \<Rightarrow> Inl e
           | Inr summary_text \<Rightarrow>
               (case run_analysis lib rest of
                  Inl e \<Rightarrow> Inl e
                | Inr analysis_summaries \<Rightarrow> Inr ((key, summary_text) # analysis_summaries))))"

text \<open>A concrete statsmodels stand-in and fitted results, used to run the model.\<close>

definition lib0 :: statsmodels where
  "lib0 = \<lparr>summary = (\<lambda>r. ''OLS''), t_test = (\<lambda>r h. ''t''),
            acorr_breusch_godfrey = (\<lambda>r n. (Finite 1, Finite 2, Finite 3, Finite 4))\<rparr>"

definition fit0 :: "real \<Rightarrow> fitresult" where
  "fit0 a = \<lparr>params = [(''selic_target_lag'', Finite a), (''inf_dev'', Finite 0.3)], resid = []\<rparr>"

section \<open>Calendar dates\<close>

text \<open>
  A pandas Timestamp at midnight is a calendar date.  \<open>ts - pd.Timedelta(days=k)\<close>
  steps back \<open>k\<close> calendar days; \<open>dt.to_period('M')\<close> keeps year and month.  A monthly
  Period is its ordinal, the number of months since January of year 0, as pandas
  stores it (counted from 1970 there); \<open>.dt.year\<close> and \<open>.dt.month\<close> read it back.
\<close>

datatype timestamp = Timestamp (ts_year: int) (ts_month: nat) (ts_day: nat)

definition is_leap :: "int \<Rightarrow> bool" where
  "is_leap y = (y mod 4 = 0 \<and> (y mod 100 \<noteq> 0 \<or> y mod 400 = 0))"

definition days_in_month :: "int \<Rightarrow> nat \<Rightarrow> nat" where
  "days_in_month y m =
     (if m = 2 then (if is_leap y then 29 else 28)
      else if m = 4 \<or> m = 6 \<or> m = 9 \<or> m = 11 then 30 else 31)"

fun prev_day :: "timestamp \<Rightarrow> timestamp" where
  "prev_day (Timestamp y m d) =
     (if 1 < d then Timestamp y m (d - 1)
      else if 1 < m then Timestamp y (m - 1) (days_in_month y (m - 1))
      else Timestamp (y - 1) 12 31)"

fun minus_days :: "timestamp \<Rightarrow> nat \<Rightarrow> timestamp" where
  "minus_days t 0 = t"
| "minus_days t (Suc k) = minus_days (prev_day t) k"

type_synonym period = int

definition to_period :: "timestamp \<Rightarrow> period" where
  "to_period t = ts_year t * 12 + int (ts_month t) - 1"

definition period_year :: "period \<Rightarrow> int" where
  "period_year p = p div 12"

definition period_month :: "period \<Rightarrow> int" where
  "period_month p = p mod 12 + 1"

section \<open>processing.py: filter\_expected\_inflation\_dates\<close>

text \<open>
  The text of a date cell either parses to a date or does not; \<open>pd.to_datetime\<close> with
  its default \<open>errors='raise'\<close> raises ValueError on a text it cannot parse.  Cells
  that are missing altogether (they would become NaT) are outside the model.
\<close>

datatype date_text = DateText timestamp | BadText

fun to_datetime :: "date_text list \<Rightarrow> py_error + timestamp list" where
  "to_datetime [] = Inr []"
| "to_datetime (BadText # xs) = Inl (ValueError ''to_datetime'')"
| "to_datetime (DateText t # xs) =
     (case to_datetime xs of Inl e \<Rightarrow> Inl e | Inr ts \<Rightarrow> Inr (t # ts))"

text \<open>
  A survey table is a list of rows (Date, rest of the row); \<open>df[df['Date'].isin(ds)]\<close>
  keeps, in order, the rows whose date is one of \<open>ds\<close>.
\<close>

definition isin_rows :: "timestamp list \<Rightarrow> (timestamp \<times> 'v) list \<Rightarrow> (timestamp \<times> 'v) list" where
  "isin_rows ds df = filter (\<lambda>r. fst r \<in> set ds) df"

text \<open>\<open>df_expected[df_expected['Date'].isin(dates - pd.Timedelta(days=offset))]\<close>\<close>

definition rows_at_offset ::
  "timestamp list \<Rightarrow> (timestamp \<times> 'v) list \<Rightarrow> nat \<Rightarrow> (timestamp \<times> 'v) list" where
  "rows_at_offset dates df offset = isin_rows (map (\<lambda>d. minus_days d offset) dates) df"

text \<open>
  The loop \<open>for offset in range(1, 8)\<close>: it leaves at the first iteration that finds
  \<open>filtered_df\<close> non-empty, and otherwise replaces \<open>filtered_df\<close> by the rows at that
  offset from any meeting.
\<close>

fun fallback_search ::
  "nat list \<Rightarrow> timestamp list \<Rightarrow> (timestamp \<times> 'v) list \<Rightarrow> (timestamp \<times> 'v) list
     \<Rightarrow> (timestamp \<times> 'v) list" where
  "fallback_search [] dates df filtered_df = filtered_df"
| "fallback_search (offset # offsets) dates df filtered_df =
     (if 0 < length filtered_df then filtered_df
      else fallback_search offsets dates df (rows_at_offset dates df offset))"

text \<open>
  \<open>atas_data\<close> is the list of meeting records, each read for its \<open>dataReferencia\<close>; an
  empty list makes a DataFrame with no columns, and \<open>df['dataReferencia']\<close> raises
  KeyError.  Writing the CSV (\<open>load_data\<close>) is not modelled.
\<close>

definition filter_expected_inflation_dates ::
  "date_text list \<Rightarrow> (date_text \<times> 'v) list \<Rightarrow> py_error + (timestamp \<times> 'v) list" where
  "filter_expected_inflation_dates atas_data df_expected =
     (if atas_data = [] then Inl (KeyError ''dataReferencia'')
      else case to_datetime atas_data of
        Inl e \<Rightarrow> Inl e
      | Inr dates \<Rightarrow>
          (case to_datetime (map fst df_expected) of
             Inl e \<Rightarrow> Inl e
           | Inr ds \<Rightarrow>
               (let df = zip ds (map snd df_expected);
                    eve_dates = map (\<lambda>d. minus_days d 1) dates;
                    filtered_df = isin_rows eve_dates df
                in Inr (fallback_search [1..<8] dates df filtered_df))))"

text \<open>
  The specification's reading of the fallback, for comparison: each meeting date looks
  for its own first offset from 1 to 7 that has a survey row.
\<close>

fun first_match_of_meeting ::
  "nat list \<Rightarrow> timestamp \<Rightarrow> (timestamp \<times> 'v) list \<Rightarrow> (timestamp \<times> 'v) list" where
  "first_match_of_meeting [] d df = []"
| "first_match_of_meeting (k # ks) d df =
     (if isin_rows [minus_days d k] df \<noteq> [] then isin_rows [minus_days d k] df
      else first_match_of_meeting ks d df)"

definition spec_per_meeting_filter ::
  "timestamp list \<Rightarrow> (timestamp \<times> 'v) list \<Rightarrow> (timestamp \<times> 'v) list" where
  "spec_per_meeting_filter dates df =
     filter (\<lambda>r. r \<in> set (concat (map (\<lambda>d. first_match_of_meeting [1..<8] d df) dates))) df"

definition parsed_rows :: "(timestamp \<times> 'v) list \<Rightarrow> (date_text \<times> 'v) list" where
  "parsed_rows df = map (\<lambda>r. (DateText (fst r), snd r)) df"

section \<open>processing.py: calculate\_deviation\_from\_target\<close>

text \<open>
  A float column holds numbers and missing values (NaN); a cell is \<open>real option\<close> with
  \<open>None\<close> for NaN, and arithmetic on cells gives NaN as soon as an operand is NaN.
  Finite numbers are reals: rounding is not modelled.
\<close>

fun nan_sub :: "real option \<Rightarrow> real option \<Rightarrow> real option" where
  "nan_sub (Some x) (Some y) = Some (x - y)"
| "nan_sub a b = None"

fun nan_add :: "real option \<Rightarrow> real option \<Rightarrow> real option" where
  "nan_add (Some x) (Some y) = Some (x + y)"
| "nan_add a b = None"

fun nan_mul :: "real option \<Rightarrow> real option \<Rightarrow> real option" where
  "nan_mul (Some x) (Some y) = Some (x * y)"
| "nan_mul a b = None"

text \<open>
  The columns of the merged panel that \<open>calculate_deviation_from_target\<close> reads; \<open>Date\<close>
  is a monthly Period by then.
\<close>

record panel_row =
  Date :: period
  inflation_target :: "real option"
  bcb_expected_inflation :: "real option"
  focus_expected_inflation :: "real option"

record deviation_row = panel_row +
  ano :: int
  mes :: int
  inflation_target_next :: "real option"
  bcb_inflation_deviation :: "real option"
  focus_inflation_deviation :: "real option"

text \<open>
  \<open>df.groupby('mes')['inflation_target'].shift(-1)\<close>: every row gets the value of the
  next row of its own group (the next row below with the same \<open>mes\<close>), NaN when it is
  the last of its group.  The argument is the list of (mes, inflation_target) cells.
\<close>

fun groupby_shift_next :: "(int \<times> real option) list \<Rightarrow> real option list" where
  "groupby_shift_next [] = []"
| "groupby_shift_next (kv # rest) =
     (case find (\<lambda>r. fst r = fst kv) rest of None \<Rightarrow> None | Some r \<Rightarrow> snd r)
       # groupby_shift_next rest"

text \<open>
  \<open>((12 - mes) / 12) * (expected - target) + (mes / 12) * (expected - target_next)\<close>
\<close>

definition deviation_expr :: "int \<Rightarrow> real option \<Rightarrow> real option \<Rightarrow> real option \<Rightarrow> real option" where
  "deviation_expr m expected target target_next =
     nan_add (nan_mul (Some (real_of_int (12 - m) / 12)) (nan_sub expected target))
             (nan_mul (Some (real_of_int m / 12)) (nan_sub expected target_next))"

definition calculate_deviation_from_target :: "panel_row list \<Rightarrow> deviation_row list" where
  "calculate_deviation_from_target df_final =
     (let ano_col = map (\<lambda>r. period_year (Date r)) df_final;
          mes_col = map (\<lambda>r. period_month (Date r)) df_final;
          next_col = groupby_shift_next (zip mes_col (map inflation_target df_final))
      in map (\<lambda>(r, a, m, nxt).
                \<lparr>Date = Date r, inflation_target = inflation_target r,
                 bcb_expected_inflation = bcb_expected_inflation r,
                 focus_expected_inflation = focus_expected_inflation r,
                 ano = a, mes = m, inflation_target_next = nxt,
                 bcb_inflation_deviation =
                   deviation_expr m (bcb_expected_inflation r) (inflation_target r) nxt,
                 focus_inflation_deviation =
                   deviation_expr m (focus_expected_inflation r) (inflation_target r) nxt\<rparr>)
             (zip df_final (zip ano_col (zip mes_col next_col))))"

text \<open>A two-year panel with June 2020 and June 2021, used to run the model.\<close>

definition panel0 :: "panel_row list" where
  "panel0 =
     [\<lparr>Date = 2020 * 12 + 5, inflation_target = Some 4, bcb_expected_inflation = Some 4.5,
       focus_expected_inflation = Some 5\<rparr>,
      \<lparr>Date = 2020 * 12 + 6, inflation_target = Some 4, bcb_expected_inflation = None,
       focus_expected_inflation = Some 5\<rparr>,
      \<lparr>Date = 2021 * 12 + 5, inflation_target = Some 3.5, bcb_expected_inflation = Some 4,
       focus_expected_inflation = Some 4\<rparr>]"

text \<open>
  What the group shift gives row \<open>i\<close>, read off the panel: the \<open>inflation_target\<close> of the
  first row below \<open>i\<close> with the same calendar month number, NaN if there is none.
\<close>

definition target_next :: "panel_row list \<Rightarrow> nat \<Rightarrow> real option" where
  "target_next df i =
     (case find (\<lambda>s. period_month (Date s) = period_month (Date (df ! i))) (drop (Suc i) df) of
        None \<Rightarrow> None
      | Some s \<Rightarrow> inflation_target s)"

text \<open>
  A panel with a row for June 2020 and a row for June 2022 and none for June 2021, as
  the merged panel has when no policy meeting falls in a month.
\<close>

definition panel_gap :: "panel_row list" where
  "panel_gap =
     [\<lparr>Date = 2020 * 12 + 5, inflation_target = Some 4, bcb_expected_inflation = Some 5,
       focus_expected_inflation = Some 5\<rparr>,
      \<lparr>Date = 2022 * 12 + 5, inflation_target = Some 3, bcb_expected_inflation = Some 5,
       focus_expected_inflation = Some 5\<rparr>]"

section \<open>processing.py: resampling to the monthly calendar\<close>

text \<open>
  The first day of a monthly period, and the month-start index that
  \<open>df.resample('MS')\<close> builds: every month from the earliest to the latest date of the
  frame.  The frames resampled with \<open>'MS'\<close> here have dates parsed with \<open>'%Y'\<close> or
  \<open>'%m/%Y'\<close>, which are month starts, so a row is keyed by its month.  Rows whose date
  does not parse are outside the model.
\<close>

definition month_start :: "period \<Rightarrow> timestamp" where
  "month_start p = Timestamp (p div 12) (nat (p mod 12) + 1) 1"

definition month_end :: "period \<Rightarrow> timestamp" where
  "month_end p = Timestamp (p div 12) (nat (p mod 12) + 1) (days_in_month (p div 12) (nat (p mod 12) + 1))"

definition first_month :: "period list \<Rightarrow> period" where
  "first_month ps = fold min (tl ps) (hd ps)"

definition last_month :: "period list \<Rightarrow> period" where
  "last_month ps = fold max (tl ps) (hd ps)"

definition month_range :: "period list \<Rightarrow> period list" where
  "month_range ps = (if ps = [] then [] else [first_month ps..last_month ps])"

text \<open>
  \<open>df.resample('MS').asfreq()\<close>: the frame reindexed to the month range; a month with a
  row keeps it, any other month is a row of NaN (\<open>None\<close>).  Reindexing a frame whose
  index has a date twice raises ValueError.
\<close>

definition resample_MS_asfreq :: "(period \<times> 'a) list \<Rightarrow> py_error + (period \<times> 'a option) list" where
  "resample_MS_asfreq rows =
     (if \<not> distinct (map fst rows)
      then Inl (ValueError ''cannot reindex on an axis with duplicate labels'')
      else Inr (map (\<lambda>p. (p, map_of rows p)) (month_range (map fst rows))))"

text \<open>\<open>Series.ffill()\<close>: a NaN takes the last value seen above it, if any.\<close>

fun ffill_from :: "real option \<Rightarrow> real option list \<Rightarrow> real option list" where
  "ffill_from prev [] = []"
| "ffill_from prev (None # xs) = prev # ffill_from prev xs"
| "ffill_from prev (Some v # xs) = Some v # ffill_from (Some v) xs"

definition ffill :: "real option list \<Rightarrow> real option list" where
  "ffill xs = ffill_from None xs"

subsection \<open>resample\_annualy\_to\_monthly\<close>

text \<open>
  The annual table: the year of the \<open>Date\<close> column (format \<open>'%Y'\<close>, so 1 January), the
  second column (renamed \<open>inflation_target\<close>) and the third (renamed \<open>interval_size\<close>),
  both after \<open>pd.to_numeric(errors='coerce')\<close>.
\<close>

record annual_row =
  target_year :: int
  annual_target :: "real option"
  annual_interval :: "real option"

record target_row =
  tr_Date :: timestamp
  tr_inflation_target :: "real option"
  tr_interval_size :: "real option"
  tr_upper_limit :: "real option"
  tr_lower_limit :: "real option"

definition annual_keyed :: "annual_row list \<Rightarrow> (period \<times> real option \<times> real option) list" where
  "annual_keyed df =
     map (\<lambda>r. (to_period (Timestamp (target_year r) 1 1), annual_target r, annual_interval r)) df"

text \<open>The two value columns of a reindexed row: NaN in both where the month had no row.\<close>

definition cell_target :: "(real option \<times> real option) option \<Rightarrow> real option" where
  "cell_target c = (case c of None \<Rightarrow> None | Some (t, s) \<Rightarrow> t)"

definition cell_interval :: "(real option \<times> real option) option \<Rightarrow> real option" where
  "cell_interval c = (case c of None \<Rightarrow> None | Some (t, s) \<Rightarrow> s)"

definition resample_annualy_to_monthly :: "annual_row list \<Rightarrow> py_error + target_row list" where
  "resample_annualy_to_monthly df =
     (case resample_MS_asfreq (annual_keyed df) of
        Inl e \<Rightarrow> Inl e
      | Inr monthly \<Rightarrow>
          (let target_col = ffill (map (\<lambda>r. cell_target (snd r)) monthly);
               interval_col = map (\<lambda>r. cell_interval (snd r)) monthly
           in Inr (map (\<lambda>(r, t, s).
                      \<lparr>tr_Date = month_start (fst r), tr_inflation_target = t,
                       tr_interval_size = s, tr_upper_limit = nan_add t s,
                       tr_lower_limit = nan_sub t s\<rparr>)
                    (zip monthly (zip target_col interval_col)))))"

text \<open>Two annual targets, 4.0 with width 1.5 for 2020 and 3.75 with width 1.5 for 2021.\<close>

definition targets0 :: "annual_row list" where
  "targets0 =
     [\<lparr>target_year = 2020, annual_target = Some 4, annual_interval = Some 1.5\<rparr>,
      \<lparr>target_year = 2021, annual_target = Some 3.75, annual_interval = Some 1.5\<rparr>]"

subsection \<open>interpolate\_quartely\_data\<close>

text \<open>
  \<open>Series.interpolate(method='linear')\<close>: a NaN between two values is filled on the
  straight line between them, by position; NaN after the last value take the last
  value (pandas fills forward); NaN before the first value stay.
\<close>

definition prev_valid :: "real option list \<Rightarrow> nat \<Rightarrow> (nat \<times> real) option" where
  "prev_valid xs i =
     (case find (\<lambda>j. xs ! j \<noteq> None) (rev [0..<i]) of
        None \<Rightarrow> None
      | Some j \<Rightarrow> Some (j, the (xs ! j)))"

definition next_valid :: "real option list \<Rightarrow> nat \<Rightarrow> (nat \<times> real) option" where
  "next_valid xs i =
     (case find (\<lambda>j. xs ! j \<noteq> None) [Suc i..<length xs] of
        None \<Rightarrow> None
      | Some j \<Rightarrow> Some (j, the (xs ! j)))"

definition interpolate_linear :: "real option list \<Rightarrow> real option list" where
  "interpolate_linear xs =
     map (\<lambda>i. case xs ! i of
                 Some v \<Rightarrow> Some v
               | None \<Rightarrow>
                   (case prev_valid xs i of
                      None \<Rightarrow> None
                    | Some (a, va) \<Rightarrow>
                        (case next_valid xs i of
                           None \<Rightarrow> Some va
                         | Some (b, vb) \<Rightarrow>
                             Some (va + (vb - va) * (real (i - a) / real (b - a))))))
         [0..<length xs]"

text \<open>
  The quarterly table after its dates are parsed (\<open>'%m/%Y'\<close>, a month) and its value
  column is made numeric (\<open>errors='coerce'\<close>): rows (month, value).
\<close>

record bcb_row =
  bcb_Date :: timestamp
  bcb_value :: "real option"

definition interpolate_quartely_data :: "(period \<times> real option) list \<Rightarrow> py_error + bcb_row list" where
  "interpolate_quartely_data df =
     (case resample_MS_asfreq df of
        Inl e \<Rightarrow> Inl e
      | Inr monthly \<Rightarrow>
          (let col = interpolate_linear (map (\<lambda>r. case snd r of None \<Rightarrow> None | Some v \<Rightarrow> v) monthly)
           in Inr (map (\<lambda>(r, v). \<lparr>bcb_Date = month_start (fst r), bcb_value = v\<rparr>)
                     (zip monthly col))))"

subsection \<open>resample\_daily\_to\_monthly\<close>

text \<open>
  \<open>df.resample('ME').last()\<close>: one row for every month of the month range, dated at the
  month end, with the last value of the month that is not NaN, in date order (rows of
  one date keep their order); NaN for a month without such a value.  The daily table is
  given with its dates parsed and its values numeric: rows (date, value).
\<close>

record selic_row =
  selic_Date :: timestamp
  selic_value :: "real option"

definition last_valid :: "real option list \<Rightarrow> real option" where
  "last_valid vs = (case filter (\<lambda>v. v \<noteq> None) vs of [] \<Rightarrow> None | ws \<Rightarrow> last ws)"

definition resample_daily_to_monthly :: "(timestamp \<times> real option) list \<Rightarrow> selic_row list" where
  "resample_daily_to_monthly df =
     map (\<lambda>p. \<lparr>selic_Date = month_end p,
                selic_value =
                  last_valid (map snd (sort_key (\<lambda>r. ts_day (fst r))
                                         (filter (\<lambda>r. to_period (fst r) = p) df)))\<rparr>)
         (month_range (map (\<lambda>r. to_period (fst r)) df))"

text \<open>
  The index of a monthly series: a contiguous sequence of months steps by one month
  from each row to the next.
\<close>

fun contiguous_months :: "period list \<Rightarrow> bool" where
  "contiguous_months [] = True"
| "contiguous_months [p] = True"
| "contiguous_months (p # q # ps) = (q = p + 1 \<and> contiguous_months (q # ps))"

text \<open>Quarterly observations, daily observations and survey data used to run the stages.\<close>

definition quarterly0 :: "(period \<times> real option) list" where
  "quarterly0 = [(2020 * 12 + 2, Some 3), (2020 * 12 + 5, Some 6), (2020 * 12 + 8, None)]"

definition daily0 :: "(timestamp \<times> real option) list" where
  "daily0 = [(Timestamp 2020 1 30, Some 4.5), (Timestamp 2020 1 31, None),
             (Timestamp 2020 3 2, Some 3.75)]"

section \<open>estimation.py: class TaylorRuleEstimator\<close>

text \<open>
  Python objects live in a store: a list of cells, a reference is an index.  A
  DataFrame that a method changes in place is a cell of the store that the method
  overwrites; \<open>df.copy()\<close> allocates a new cell.
\<close>

type_synonym ref = nat

definition alloc :: "'f list \<Rightarrow> 'f \<Rightarrow> 'f list \<times> ref" where
  "alloc st v = (st @ [v], length st)"

text \<open>
  The final panel as the estimator reads it: the columns of the deviation stage and the
  merged series it regresses on, together with the columns the estimator itself
  assigns (\<open>inf_dev\<close> and the three lags), which hold NaN until assigned; every method
  assigns them before it reads them.
\<close>

record est_row = deviation_row +
  selic_target :: "real option"
  output_gap :: "real option"
  exchange_rate_var :: "real option"
  inf_dev :: "real option"
  output_gap_lag :: "real option"
  exchange_rate_var_lag :: "real option"
  selic_target_lag :: "real option"

record estimator =
  est_data :: ref
  est_source :: string
  est_lag :: int

text \<open>\<open>__init__\<close>: \<open>self.data = data.copy()\<close>.\<close>

definition TaylorRuleEstimator_init ::
  "est_row list list \<Rightarrow> ref \<Rightarrow> string \<Rightarrow> int \<Rightarrow> est_row list list \<times> estimator" where
  "TaylorRuleEstimator_init st data_ref source lag =
     (case alloc st (st ! data_ref) of
        (st', r) \<Rightarrow> (st', \<lparr>est_data = r, est_source = source, est_lag = lag\<rparr>))"

text \<open>\<open>_source_column\<close> writes the column \<open>inf_dev\<close> of \<open>self.data\<close> in place.\<close>

definition source_column :: "est_row list list \<Rightarrow> estimator \<Rightarrow> py_error + est_row list list" where
  "source_column st self =
     (if est_source self = ''market''
      then Inr (st[est_data self :=
                  map (\<lambda>r. r\<lparr>inf_dev := focus_inflation_deviation r\<rparr>) (st ! est_data self)])
      else if est_source self = ''bc''
      then Inr (st[est_data self :=
                  map (\<lambda>r. r\<lparr>inf_dev := bcb_inflation_deviation r\<rparr>) (st ! est_data self)])
      else Inl (ValueError ''Source must be either market or bc.''))"

text \<open>
  \<open>Series.shift(n)\<close>: the values move down \<open>n\<close> rows (up for a negative \<open>n\<close>), the
  length stays, the vacated rows are NaN.
\<close>

definition shift :: "int \<Rightarrow> real option list \<Rightarrow> real option list" where
  "shift n xs =
     (if 0 \<le> n then take (length xs) (replicate (nat n) None @ xs)
      else drop (nat (- n)) xs @ replicate (min (nat (- n)) (length xs)) None)"

text \<open>
  \<open>_apply_lag\<close>: the three lag columns are assigned, then the rows with a NaN in a
  lagged regressor or in \<open>inf_dev\<close> are dropped, all in place in \<open>self.data\<close>.
\<close>

definition apply_lag :: "est_row list list \<Rightarrow> estimator \<Rightarrow> est_row list list" where
  "apply_lag st self =
     (let d = st ! est_data self;
          og = shift (est_lag self) (map output_gap d);
          ex = shift (est_lag self) (map exchange_rate_var d);
          se = shift (est_lag self) (map selic_target d);
          d1 = map (\<lambda>(r, g, x, s). r\<lparr>output_gap_lag := g, exchange_rate_var_lag := x,
                                        selic_target_lag := s\<rparr>)
                 (zip d (zip og (zip ex se)));
          d2 = filter (\<lambda>r. output_gap_lag r \<noteq> None \<and> exchange_rate_var_lag r \<noteq> None
                            \<and> selic_target_lag r \<noteq> None \<and> inf_dev r \<noteq> None) d1
      in st[est_data self := d2])"

text \<open>
  \<open>smf.ols(formula, data)\<close>: the rows of \<open>data\<close> with a NaN in a variable of the formula
  are left out (patsy's default), the rest make the response vector and the design
  matrix with its intercept column.  statsmodels raises ValueError when no row is
  left.  \<open>nobs\<close> is the sample size of the model.
\<close>

record ols_model =
  formula :: string
  endog :: "real list"
  exog :: "real list list"

definition nobs :: "ols_model \<Rightarrow> nat" where
  "nobs m = length (endog m)"

definition complete_row :: "(est_row \<Rightarrow> real option) list \<Rightarrow> est_row \<Rightarrow> bool" where
  "complete_row vars r = list_all (\<lambda>f. f r \<noteq> None) vars"

definition smf_ols ::
  "string \<Rightarrow> (est_row \<Rightarrow> real option) \<Rightarrow> (est_row \<Rightarrow> real option) list \<Rightarrow> est_row list
     \<Rightarrow> py_error + ols_model" where
  "smf_ols fml dep regs data =
     (let rows = filter (complete_row (dep # regs)) data
      in if rows = [] then Inl (ValueError ''zero-size array'')
         else Inr \<lparr>formula = fml, endog = map (\<lambda>r. the (dep r)) rows,
                   exog = map (\<lambda>r. 1 # map (\<lambda>f. the (f r)) regs) rows\<rparr>)"

definition in_year_range :: "int \<times> int \<Rightarrow> est_row \<Rightarrow> bool" where
  "in_year_range year_range r = (fst year_range \<le> ano r \<and> ano r \<le> snd year_range)"

definition estimate_range ::
  "est_row list list \<Rightarrow> estimator \<Rightarrow> int \<times> int
     \<Rightarrow> py_error + (est_row list list \<times> ols_model \<times> ols_model \<times> ols_model)" where
  "estimate_range st self year_range =
     (case source_column st self of
        Inl e \<Rightarrow> Inl e
      | Inr st1 \<Rightarrow>
          (let st2 = apply_lag st1 self;
               df_range = filter (in_year_range year_range) (st2 ! est_data self)
           in if df_range = [] then Inl (ValueError ''No data available for the specified year range'')
              else
                (case smf_ols ''selic_target ~ selic_target_lag + inf_dev'' selic_target
                        [selic_target_lag, inf_dev] df_range of
                   Inl e \<Rightarrow> Inl e
                 | Inr model_i \<Rightarrow>
                     (case smf_ols ''selic_target ~ selic_target_lag + inf_dev + output_gap_lag''
                             selic_target [selic_target_lag, inf_dev, output_gap_lag] df_range of
                        Inl e \<Rightarrow> Inl e
                      | Inr model_ii \<Rightarrow>
                          (case smf_ols
                                  ''selic_target ~ selic_target_lag + inf_dev + output_gap_lag + exchange_rate_var_lag''
                                  selic_target
                                  [selic_target_lag, inf_dev, output_gap_lag, exchange_rate_var_lag]
                                  df_range of
                             Inl e \<Rightarrow> Inl e
                           | Inr model_iii \<Rightarrow> Inr (st2, model_i, model_ii, model_iii))))))"

text \<open>
  \<open>Pipeline.estimate_taylor_rule\<close> (without a dummy range): a new estimator on the final
  panel for every (source, sample window), then \<open>estimate_range\<close>.
\<close>

definition estimate_taylor_rule ::
  "est_row list list \<Rightarrow> ref \<Rightarrow> string \<Rightarrow> int \<Rightarrow> int \<times> int
     \<Rightarrow> py_error + (est_row list list \<times> ols_model \<times> ols_model \<times> ols_model)" where
  "estimate_taylor_rule st data_ref source lag year_range =
     (case TaylorRuleEstimator_init st data_ref source lag of
        (st', estimator) \<Rightarrow> estimate_range st' estimator year_range)"

text \<open>A panel of four years, one row a year, used to run the estimator.\<close>

definition est_row0 :: "int \<Rightarrow> real \<Rightarrow> est_row" where
  "est_row0 y v =
     \<lparr>Date = y * 12, inflation_target = Some 4, bcb_expected_inflation = Some 4,
      focus_expected_inflation = Some 5, ano = y, mes = 1, inflation_target_next = Some 4,
      bcb_inflation_deviation = Some 0, focus_inflation_deviation = Some 1,
      selic_target = Some v, output_gap = Some 0.5, exchange_rate_var = Some 2,
      inf_dev = None, output_gap_lag = None, exchange_rate_var_lag = None,
      selic_target_lag = None\<rparr>"

definition est_panel0 :: "est_row list" where
  "est_panel0 = [est_row0 9 10, est_row0 10 11, est_row0 11 12, est_row0 12 13]"

section \<open>processing.py: merge\_datasets\<close>

text \<open>
  A DataFrame of the merge stage is a list of named, typed columns; a missing value
  (NaN, NaT, None) is \<open>None\<close>.  All columns of a frame have the same length.
\<close>

datatype column =
    FloatCol "real option list"
  | DatetimeCol "timestamp option list"
  | PeriodCol "period option list"
  | ObjectCol "string option list"

type_synonym frame = "(string \<times> column) list"

datatype dtype = Float64 | Datetime64 | PeriodM | Object

fun col_dtype :: "column \<Rightarrow> dtype" where
  "col_dtype (FloatCol xs) = Float64"
| "col_dtype (DatetimeCol xs) = Datetime64"
| "col_dtype (PeriodCol xs) = PeriodM"
| "col_dtype (ObjectCol xs) = Object"

fun col_len :: "column \<Rightarrow> nat" where
  "col_len (FloatCol xs) = length xs"
| "col_len (DatetimeCol xs) = length xs"
| "col_len (PeriodCol xs) = length xs"
| "col_len (ObjectCol xs) = length xs"

text \<open>The values of a column as join keys; two missing keys are equal, as in pandas.\<close>

datatype cell =
    CFloat "real option"
  | CTs "timestamp option"
  | CPer "period option"
  | CStr "string option"

fun col_cells :: "column \<Rightarrow> cell list" where
  "col_cells (FloatCol xs) = map CFloat xs"
| "col_cells (DatetimeCol xs) = map CTs xs"
| "col_cells (PeriodCol xs) = map CPer xs"
| "col_cells (ObjectCol xs) = map CStr xs"

text \<open>
  Taking rows by position; \<open>None\<close> is the position of a left row without a match, and
  gives a missing value.
\<close>

definition take_opt :: "nat option list \<Rightarrow> 'a option list \<Rightarrow> 'a option list" where
  "take_opt idx xs = map (\<lambda>j. case j of None \<Rightarrow> None | Some k \<Rightarrow> xs ! k) idx"

fun col_take :: "nat option list \<Rightarrow> column \<Rightarrow> column" where
  "col_take idx (FloatCol xs) = FloatCol (take_opt idx xs)"
| "col_take idx (DatetimeCol xs) = DatetimeCol (take_opt idx xs)"
| "col_take idx (PeriodCol xs) = PeriodCol (take_opt idx xs)"
| "col_take idx (ObjectCol xs) = ObjectCol (take_opt idx xs)"

text \<open>
  The row pairs of a left join: the left rows in their order, each with its matching
  right rows in the right frame's order, or alone when nothing matches.
\<close>

definition left_join_pairs :: "cell list \<Rightarrow> cell list \<Rightarrow> (nat \<times> nat option) list" where
  "left_join_pairs lkeys rkeys =
     concat (map (\<lambda>i.
        case filter (\<lambda>j. rkeys ! j = lkeys ! i) [0..<length rkeys] of
          [] \<Rightarrow> [(i, None)]
        | js \<Rightarrow> map (\<lambda>j. (i, Some j)) js) [0..<length lkeys])"

text \<open>
  Column labels of the result: a label that both frames have outside the key gets the
  suffix \<open>_x\<close> on the left and \<open>_y\<close> on the right.  pandas raises MergeError when the
  suffixes make a label occur twice on one side that did not occur twice before.
\<close>

definition duplicated :: "string list \<Rightarrow> bool list" where
  "duplicated xs = map (\<lambda>i. xs ! i \<in> set (take i xs)) [0..<length xs]"

definition suffix_dups :: "string list \<Rightarrow> string list \<Rightarrow> bool" where
  "suffix_dups renamed original =
     (\<exists>i < length original. duplicated renamed ! i \<and> \<not> duplicated original ! i)"

definition pd_merge_left :: "frame \<Rightarrow> frame \<Rightarrow> py_error + frame" where
  "pd_merge_left left right =
     (case (map_of left ''Date'', map_of right ''Date'') of
        (Some lk, Some rk) \<Rightarrow>
          if col_dtype lk \<noteq> col_dtype rk then Inl (ValueError ''You are trying to merge on different dtypes'')
          else
            (let right' = filter (\<lambda>c. fst c \<noteq> ''Date'') right;
                 to_rename = filter (\<lambda>n. n \<in> set (map fst right')) (map fst left);
                 llabels = map (\<lambda>n. if n \<in> set to_rename then n @ ''_x'' else n) (map fst left);
                 rlabels = map (\<lambda>n. if n \<in> set to_rename then n @ ''_y'' else n) (map fst right')
             in if suffix_dups llabels (map fst left) \<or> suffix_dups rlabels (map fst right')
                then Inl MergeError
                else
                  (let pairs = left_join_pairs (col_cells lk) (col_cells rk)
                   in Inr (zip llabels (map (\<lambda>c. col_take (map (\<lambda>p. Some (fst p)) pairs) (snd c)) left)
                           @ zip rlabels (map (\<lambda>c. col_take (map snd pairs) (snd c)) right'))))
      | _ \<Rightarrow> Inl (KeyError ''Date''))"

text \<open>
  \<open>df['Date'] = df['Date'].dt.to_period('M')\<close>, in place in the frame \<open>df\<close> refers to.
  The \<open>.dt\<close> accessor of a column that is not datetime-like raises AttributeError, and
  so does \<open>.dt.to_period\<close> of a column that is a Period already.
\<close>

definition set_column :: "frame \<Rightarrow> string \<Rightarrow> column \<Rightarrow> frame" where
  "set_column df name col = map (\<lambda>c. if fst c = name then (name, col) else c) df"

definition date_to_period :: "frame list \<Rightarrow> ref \<Rightarrow> py_error + frame list" where
  "date_to_period st df =
     (case map_of (st ! df) ''Date'' of
        None \<Rightarrow> Inl (KeyError ''Date'')
      | Some (DatetimeCol ds) \<Rightarrow>
          Inr (st[df := set_column (st ! df) ''Date'' (PeriodCol (map (map_option to_period) ds))])
      | Some c \<Rightarrow> Inl (AttributeError ''to_period''))"

fun dates_to_periods :: "frame list \<Rightarrow> ref list \<Rightarrow> py_error + frame list" where
  "dates_to_periods st [] = Inr st"
| "dates_to_periods st (df # dfs) =
     (case date_to_period st df of Inl e \<Rightarrow> Inl e | Inr st' \<Rightarrow> dates_to_periods st' dfs)"

text \<open>
  \<open>reduce(lambda left, right: pd.merge(left, right, on='Date', how='left'), dfs)\<close>:
  every merge makes a new frame; a list of one frame reduces to that frame itself.
\<close>

fun reduce_merge :: "frame list \<Rightarrow> ref \<Rightarrow> ref list \<Rightarrow> py_error + (frame list \<times> ref)" where
  "reduce_merge st left [] = Inr (st, left)"
| "reduce_merge st left (right # rest) =
     (case pd_merge_left (st ! left) (st ! right) of
        Inl e \<Rightarrow> Inl e
      | Inr merged \<Rightarrow> (case alloc st merged of (st', r) \<Rightarrow> reduce_merge st' r rest))"

definition merge_datasets :: "frame list \<Rightarrow> ref list \<Rightarrow> py_error + (frame list \<times> ref)" where
  "merge_datasets st dfs =
     (case dates_to_periods st dfs of
        Inl e \<Rightarrow> Inl e
      | Inr st1 \<Rightarrow>
          (case dfs of
             [] \<Rightarrow> Inl (TypeError ''reduce() of empty iterable with no initial value'')
           | df # rest \<Rightarrow> reduce_merge st1 df rest))"

text \<open>A two-month panel of the policy rate, used to run the merge.\<close>

definition frame0 :: frame where
  "frame0 =
     [(''Date'', DatetimeCol [Some (Timestamp 2020 1 31), Some (Timestamp 2020 2 29)]),
      (''selic_target'', FloatCol [Some 4.5, Some 4.25])]"

section \<open>Properties of the analyzer\<close>

lemma np_div_zero: "is_inf_or_nan (np_div c (Finite 0))"
  by (cases c) (simp_all add: is_inf_or_nan_def)

text \<open>The only exceptions of \<open>estructural_params\<close> are the two KeyErrors of \<open>params[...]\<close>.\<close>

lemma estructural_params_errors:
  "estructural_params r = Inl e \<Longrightarrow>
     e = KeyError ''selic_target_lag'' \<or> e = KeyError ''inf_dev''"
  by (auto simp: estructural_params_def series_getitem_def Let_def split: option.splits)

text \<open>
  Claim C3, as stated: with \<open>alpha1 = 1\<close> exactly, \<open>estructural_params\<close> raises.
  It does not: with \<open>alpha1 = 1.0\<close> and a raw inflation coefficient \<open>0.3\<close> and no other
  regressor, it returns \<open>(1.0, inf, nan, nan)\<close>.
\<close>

theorem estructural_params_no_error_counterexample:
  "estructural_params \<lparr>params = [(''selic_target_lag'', Finite 1), (''inf_dev'', Finite 0.3)],
      resid = []\<rparr> = Inr (Finite 1, PosInf, NaN, NaN)"
  by (simp add: estructural_params_def series_getitem_def series_get_def)

text \<open>
  Claim C3, amended: for every fitted result that has the two coefficients
  \<open>selic_target_lag\<close> and \<open>inf_dev\<close> and whose \<open>alpha1\<close> is exactly 1,
  \<open>estructural_params\<close> returns normally, with \<open>alpha1 = 1\<close> and each of the rescaled
  responses \<open>alpha2\<close>, \<open>alpha3\<close>, \<open>alpha4\<close> equal to \<open>inf\<close>, \<open>-inf\<close> or \<open>nan\<close>.
\<close>

theorem estructural_params_alpha1_one:
  assumes "map_of (params r) ''selic_target_lag'' = Some (Finite 1)"
    and "map_of (params r) ''inf_dev'' = Some c"
  shows "\<exists>a2 a3 a4. estructural_params r = Inr (Finite 1, a2, a3, a4)
           \<and> is_inf_or_nan a2 \<and> is_inf_or_nan a3 \<and> is_inf_or_nan a4"
  using assms
  by (simp add: estructural_params_def series_getitem_def np_div_zero)

theorem estructural_params_alpha1_one_witness:
  "\<exists>a2 a3 a4. estructural_params \<lparr>params = [(''selic_target_lag'', Finite 1),
        (''inf_dev'', Finite 0.3), (''output_gap_lag'', Finite (-2))], resid = []\<rparr>
      = Inr (Finite 1, a2, a3, a4)
    \<and> is_inf_or_nan a2 \<and> is_inf_or_nan a3 \<and> is_inf_or_nan a4"
  using estructural_params_alpha1_one [of "\<lparr>params = [(''selic_target_lag'', Finite 1),
        (''inf_dev'', Finite 0.3), (''output_gap_lag'', Finite (-2))], resid = []\<rparr>" "Finite 0.3"]
  by simp

section \<open>Properties of run\_analysis\<close>

lemma run_analysis_triples:
  "run_analysis lib (map (\<lambda>(k, r1, r2, r3). (k, [r1, r2, r3])) ts)
     = run_analysis lib (map (\<lambda>(k, r1, r2, r3). (k, [r3])) ts)"
  by (induction ts) (auto simp: last_item_def split: sum.splits)

lemma run_analysis_content:
  "run_analysis lib (map (\<lambda>(k, r1, r2, r3). (k, [r1, r2, r3])) ts) = Inr out \<Longrightarrow>
   map (\<lambda>(k, rep). (k, Inr rep)) out = map (\<lambda>(k, r1, r2, r3). (k, summarize_results lib r3)) ts"
  by (induction ts arbitrary: out) (auto simp: last_item_def split: sum.splits)

text \<open>
  Claim C10: for every dict of result triples (one triple per (source, sample window)
  key), \<open>run_analysis\<close> gives the analyzer only the last element of each triple: running
  it on the triples is running it on the third results alone, and when it returns, the
  report stored under each key is \<open>summarize_results\<close> of that key's third result.  The
  results of specifications I and II do not occur on the right-hand sides.
\<close>

theorem run_analysis_third_only:
  "run_analysis lib (map (\<lambda>(k, r1, r2, r3). (k, [r1, r2, r3])) ts)
     = run_analysis lib (map (\<lambda>(k, r1, r2, r3). (k, [r3])) ts)
   \<and> (run_analysis lib (map (\<lambda>(k, r1, r2, r3). (k, [r1, r2, r3])) ts) = Inr out \<longrightarrow>
        map (\<lambda>(k, rep). (k, Inr rep)) out
          = map (\<lambda>(k, r1, r2, r3). (k, summarize_results lib r3)) ts)"
  using run_analysis_triples run_analysis_content by blast

theorem run_analysis_third_only_witness:
  "run_analysis lib0 [(''market'', [fit0 0.1, fit0 0.2, fit0 0.5])]
     = Inr [(''market'', \<lparr>rep_alpha1 = Finite 0.5, rep_alpha2 = Finite 0.6, rep_alpha3 = Finite 0,
          rep_alpha4 = Finite 0, rep_lm_stat = Finite 4, rep_test = ''t'', rep_summary = ''OLS''\<rparr>)]
   \<and> summarize_results lib0 (fit0 0.5)
     = Inr \<lparr>rep_alpha1 = Finite 0.5, rep_alpha2 = Finite 0.6, rep_alpha3 = Finite 0,
          rep_alpha4 = Finite 0, rep_lm_stat = Finite 4, rep_test = ''t'', rep_summary = ''OLS''\<rparr>"
  using run_analysis_third_only [of lib0 "[(''market'', fit0 0.1, fit0 0.2, fit0 0.5)]"
     "[(''market'', \<lparr>rep_alpha1 = Finite 0.5, rep_alpha2 = Finite 0.6, rep_alpha3 = Finite 0,
          rep_alpha4 = Finite 0, rep_lm_stat = Finite 4, rep_test = ''t'', rep_summary = ''OLS''\<rparr>)]"]
  by (simp add: lib0_def fit0_def summarize_results_def estructural_params_def series_getitem_def
      series_get_def lm_value_def last_item_def)

section \<open>Properties of filter\_expected\_inflation\_dates\<close>

lemma upt18: "[1..<8] = [1,2,3,4,5,6,7::nat]"
  by (simp add: upt_rec)

lemma to_datetime_parsed: "to_datetime (map DateText ds) = Inr ds"
  by (induction ds) auto

lemma parsed_rows_dates: "to_datetime (map fst (parsed_rows df)) = Inr (map fst df)"
  by (induction df) (auto simp: parsed_rows_def)

lemma parsed_rows_zip: "zip (map fst df) (map snd (parsed_rows df)) = df"
  by (induction df) (auto simp: parsed_rows_def)

lemma fallback_search_nonempty:
  "filtered_df \<noteq> [] \<Longrightarrow> fallback_search ks dates df filtered_df = filtered_df"
  by (cases ks) auto

lemma fallback_search_empty:
  "fallback_search ks dates df [] =
     (case find (\<lambda>k. rows_at_offset dates df k \<noteq> []) ks of None \<Rightarrow> []
      | Some k \<Rightarrow> rows_at_offset dates df k)"
proof (induction ks)
  case Nil
  then show ?case by simp
next
  case (Cons k ks)
  show ?case
  proof (cases "rows_at_offset dates df k = []")
    case True
    with Cons show ?thesis by simp
  next
    case False
    then show ?thesis by (simp add: fallback_search_nonempty)
  qed
qed

lemma fallback_search_first:
  "fallback_search (k # ks) dates df (rows_at_offset dates df k)
     = fallback_search (k # ks) dates df []"
proof (cases "rows_at_offset dates df k = []")
  case True
  then show ?thesis by simp
next
  case False
  then show ?thesis by (simp add: fallback_search_nonempty)
qed

lemma filter_expected_find:
  assumes "dates \<noteq> []"
  shows "filter_expected_inflation_dates (map DateText dates) (parsed_rows df) =
     Inr (case find (\<lambda>k. rows_at_offset dates df k \<noteq> []) [1..<8] of None \<Rightarrow> []
      | Some k \<Rightarrow> rows_at_offset dates df k)"
proof -
  have e: "isin_rows (map (\<lambda>d. minus_days d 1) dates) df = rows_at_offset dates df 1"
    by (simp add: rows_at_offset_def)
  have u: "[1..<8] = 1 # [2,3,4,5,6,7::nat]"
    by (simp add: upt_rec)
  have "fallback_search [1..<8] dates df (rows_at_offset dates df 1)
      = fallback_search [1..<8] dates df []"
    unfolding u by (rule fallback_search_first)
  then have "fallback_search [1..<8] dates df (rows_at_offset dates df 1)
      = (case find (\<lambda>k. rows_at_offset dates df k \<noteq> []) [1..<8] of None \<Rightarrow> []
      | Some k \<Rightarrow> rows_at_offset dates df k)"
    by (simp only: fallback_search_empty)
  then show ?thesis
    using assms
    by (simp only: filter_expected_inflation_dates_def parsed_rows_dates parsed_rows_zip e
        to_datetime_parsed Let_def sum.case map_is_Nil_conv if_False)
qed

text \<open>
  Claim C1, as stated: the fallback runs per meeting date, so a meeting with survey rows
  only at D-5 contributes its D-5 row whatever the other meetings find.  Two meetings,
  31 January and 20 March 2024, and two survey rows, 30 January (the eve of the first)
  and 15 March (five days before the second): the per-meeting reading selects both
  rows, the code returns the first only, because the eve dates already matched one row
  and the loop left at once.
\<close>

theorem filter_per_meeting_counterexample:
  "filter_expected_inflation_dates
      [DateText (Timestamp 2024 1 31), DateText (Timestamp 2024 3 20)]
      [(DateText (Timestamp 2024 1 30), 4::real), (DateText (Timestamp 2024 3 15), 3.9)]
     = Inr [(Timestamp 2024 1 30, 4)]
   \<and> spec_per_meeting_filter [Timestamp 2024 1 31, Timestamp 2024 3 20]
      [(Timestamp 2024 1 30, 4::real), (Timestamp 2024 3 15, 3.9)]
     = [(Timestamp 2024 1 30, 4), (Timestamp 2024 3 15, 3.9)]"
  by (simp add: filter_expected_inflation_dates_def spec_per_meeting_filter_def isin_rows_def
      rows_at_offset_def upt18 days_in_month_def is_leap_def numeral_eq_Suc)

text \<open>
  Claim C1, amended: the fallback search is over all meeting dates together.  For a
  non-empty list of meeting dates and a survey table (all dates parsing), the function
  returns the survey rows dated exactly \<open>k\<close> days before some meeting, where \<open>k\<close> is the
  first offset from 1 to 7 at which at least one survey row matches any meeting (every
  smaller offset matches no row of any meeting); if no offset from 1 to 7 matches, it
  returns the empty table.
\<close>

theorem filter_expected_global_fallback:
  assumes "dates \<noteq> []"
  shows "\<exists>out. filter_expected_inflation_dates (map DateText dates) (parsed_rows df) = Inr out \<and>
     ((out = [] \<and> (\<forall>k. 1 \<le> k \<and> k \<le> 7 \<longrightarrow> rows_at_offset dates df k = []))
      \<or> (\<exists>k. 1 \<le> k \<and> k \<le> 7 \<and> out = rows_at_offset dates df k \<and> out \<noteq> []
            \<and> (\<forall>j. 1 \<le> j \<and> j < k \<longrightarrow> rows_at_offset dates df j = [])))"
proof (cases "find (\<lambda>k. rows_at_offset dates df k \<noteq> []) [1..<8]")
  case None
  then have "\<forall>k. 1 \<le> k \<and> k \<le> 7 \<longrightarrow> rows_at_offset dates df k = []"
    by (auto simp: find_None_iff)
  with None filter_expected_find [OF assms, of df] show ?thesis by simp
next
  case (Some k)
  then obtain i where i: "i < length [1..<8::nat]" "rows_at_offset dates df ([1..<8] ! i) \<noteq> []"
      "k = [1..<8] ! i" "\<forall>j<i. \<not> rows_at_offset dates df ([1..<8] ! j) \<noteq> []"
    unfolding find_Some_iff by blast
  from i(1) have k: "k = 1 + i" "i < 7" using i(3) by simp_all
  have prev: "rows_at_offset dates df j = []" if "1 \<le> j" "j < k" for j
  proof -
    from that k have "j - 1 < i" by simp
    with i(4) have "rows_at_offset dates df ([1..<8] ! (j - 1)) = []" by blast
    moreover have "[1..<8] ! (j - 1) = j" using that k by simp
    ultimately show ?thesis by simp
  qed
  have "rows_at_offset dates df k \<noteq> []" using i(2,3) by simp
  moreover have "1 \<le> k \<and> k \<le> 7" using k by simp
  ultimately show ?thesis
    using Some filter_expected_find [OF assms, of df] prev by auto
qed

theorem filter_expected_global_fallback_witness:
  "[Timestamp 2024 3 20] \<noteq> []
   \<and> (\<exists>out. filter_expected_inflation_dates (map DateText [Timestamp 2024 3 20])
          (parsed_rows [(Timestamp 2024 3 15, 39::int)]) = Inr out \<and>
     ((out = [] \<and> (\<forall>k. 1 \<le> k \<and> k \<le> 7 \<longrightarrow>
          rows_at_offset [Timestamp 2024 3 20] [(Timestamp 2024 3 15, 39::int)] k = []))
      \<or> (\<exists>k. 1 \<le> k \<and> k \<le> 7
            \<and> out = rows_at_offset [Timestamp 2024 3 20] [(Timestamp 2024 3 15, 39::int)] k
            \<and> out \<noteq> []
            \<and> (\<forall>j. 1 \<le> j \<and> j < k \<longrightarrow>
                 rows_at_offset [Timestamp 2024 3 20] [(Timestamp 2024 3 15, 39::int)] j = []))))"
  using filter_expected_global_fallback [of "[Timestamp 2024 3 20]" "[(Timestamp 2024 3 15, 39::int)]"]
  by simp

text \<open>
  Claim C6, as stated: an empty match set after all offsets raises a data-availability
  error.  One meeting on 31 January 2024 and one survey row on 10 January: nothing
  matches at offsets 1 to 7, and the function returns the empty table.
\<close>

theorem filter_expected_empty_counterexample:
  "filter_expected_inflation_dates [DateText (Timestamp 2024 1 31)]
      [(DateText (Timestamp 2024 1 10), 4::real)] = Inr []"
  by (simp add: filter_expected_inflation_dates_def isin_rows_def
      rows_at_offset_def upt18 numeral_eq_Suc)

text \<open>
  Claim C6, amended: when no survey row is dated 1 to 7 days before any meeting date
  (the list of meetings non-empty, all dates parsing), \<open>filter_expected_inflation_dates\<close>
  raises nothing and returns the empty table.
\<close>

theorem filter_expected_empty_no_error:
  assumes "dates \<noteq> []"
    and "\<forall>k. 1 \<le> k \<and> k \<le> 7 \<longrightarrow> rows_at_offset dates df k = []"
  shows "filter_expected_inflation_dates (map DateText dates) (parsed_rows df) = Inr []"
proof -
  from assms(2) have "find (\<lambda>k. rows_at_offset dates df k \<noteq> []) [1..<8] = None"
    by (auto simp: find_None_iff)
  with filter_expected_find [OF assms(1), of df] show ?thesis by simp
qed

theorem filter_expected_empty_no_error_witness:
  "[Timestamp 2024 1 31] \<noteq> []
   \<and> filter_expected_inflation_dates (map DateText [Timestamp 2024 1 31])
        (parsed_rows [(Timestamp 2024 1 10, 4::real)]) = Inr []"
proof -
  have "rows_at_offset [Timestamp 2024 1 31] [(Timestamp 2024 1 10, 4::real)] k = []"
    if "1 \<le> k \<and> k \<le> 7" for k
  proof -
    from that have "k = 1 \<or> k = 2 \<or> k = 3 \<or> k = 4 \<or> k = 5 \<or> k = 6 \<or> k = 7"
      by presburger
    then show ?thesis
      by (auto simp: rows_at_offset_def isin_rows_def numeral_eq_Suc)
  qed
  then have "\<forall>k. 1 \<le> k \<and> k \<le> 7 \<longrightarrow>
      rows_at_offset [Timestamp 2024 1 31] [(Timestamp 2024 1 10, 4::real)] k = []"
    by blast
  then show ?thesis
    using filter_expected_empty_no_error
      [of "[Timestamp 2024 1 31]" "[(Timestamp 2024 1 10, 4::real)]"]
    by simp
qed

section \<open>Properties of calculate\_deviation\_from\_target\<close>


lemma length_groupby_shift_next [simp]: "length (groupby_shift_next kvs) = length kvs"
  by (induction kvs) auto

lemma groupby_shift_next_nth:
  "i < length kvs \<Longrightarrow>
   groupby_shift_next kvs ! i =
     (case find (\<lambda>r. fst r = fst (kvs ! i)) (drop (Suc i) kvs) of None \<Rightarrow> None | Some r \<Rightarrow> snd r)"
proof (induction kvs arbitrary: i)
  case Nil
  then show ?case by simp
next
  case (Cons kv kvs)
  then show ?case by (cases i) auto
qed

lemma length_calculate_deviation [simp]:
  "length (calculate_deviation_from_target df) = length df"
  by (simp add: calculate_deviation_from_target_def Let_def)

lemma find_map_pair:
  "(case find (\<lambda>r. fst r = m) (map (\<lambda>s. (f s, g s)) xs) of None \<Rightarrow> None | Some r \<Rightarrow> snd r)
     = (case find (\<lambda>s. f s = m) xs of None \<Rightarrow> None | Some s \<Rightarrow> g s)"
  by (induction xs) auto

lemma zip_map_pair: "zip (map f xs) (map g xs) = map (\<lambda>s. (f s, g s)) xs"
  by (induction xs) auto

lemma calculate_deviation_nth:
  assumes "i < length df"
  shows "calculate_deviation_from_target df ! i =
     \<lparr>Date = Date (df ! i), inflation_target = inflation_target (df ! i),
      bcb_expected_inflation = bcb_expected_inflation (df ! i),
      focus_expected_inflation = focus_expected_inflation (df ! i),
      ano = period_year (Date (df ! i)), mes = period_month (Date (df ! i)),
      inflation_target_next = target_next df i,
      bcb_inflation_deviation = deviation_expr (period_month (Date (df ! i)))
          (bcb_expected_inflation (df ! i)) (inflation_target (df ! i)) (target_next df i),
      focus_inflation_deviation = deviation_expr (period_month (Date (df ! i)))
          (focus_expected_inflation (df ! i)) (inflation_target (df ! i)) (target_next df i)\<rparr>"
proof -
  have n: "groupby_shift_next (zip (map (\<lambda>r. period_month (Date r)) df) (map inflation_target df)) ! i
      = target_next df i"
    using assms
    by (simp add: zip_map_pair groupby_shift_next_nth target_next_def drop_map find_map_pair)
  show ?thesis
    using assms by (simp add: calculate_deviation_from_target_def Let_def n)
qed

lemma period_month_range: "1 \<le> period_month p \<and> period_month p \<le> 12"
  using pos_mod_sign [of 12 p] pos_mod_bound [of 12 p] by (simp add: period_month_def)

lemma period_month_between:
  assumes "d < d'" and "d' < d + 12"
  shows "period_month d' \<noteq> period_month d"
proof
  assume "period_month d' = period_month d"
  then have "d' mod 12 = d mod 12" by (simp add: period_month_def)
  then have "12 dvd d' - d" by (simp add: mod_eq_dvd_iff)
  moreover have "0 < d' - d" "d' - d < 12" using assms by simp_all
  ultimately show False using zdvd_not_zless by blast
qed

lemma period_month_next_year: "period_month (d + 12) = period_month d"
  by (simp add: period_month_def)

lemma period_year_next_year: "period_year (d + 12) = period_year d + 1"
  by (simp add: period_year_def)

lemma target_next_following_year:
  assumes s: "sorted_wrt (<) (map Date df)"
    and i: "i < length df" and j: "j < length df"
    and d: "Date (df ! j) = Date (df ! i) + 12"
  shows "target_next df i = inflation_target (df ! j)"
proof -
  have mono: "Date (df ! a) < Date (df ! b)" if "a < b" "b < length df" for a b
    using sorted_wrt_nth_less [OF s, of a b] that by simp
  have ij: "i < j"
  proof (rule ccontr)
    assume "\<not> i < j"
    then have "j = i \<or> j < i" by auto
    then show False using mono [of j i] i d by auto
  qed
  let ?P = "\<lambda>s. period_month (Date s) = period_month (Date (df ! i))"
  let ?k = "j - Suc i"
  have k1: "?k < length (drop (Suc i) df)" using ij j by simp
  have k2: "drop (Suc i) df ! ?k = df ! j" using ij j by simp
  have k3: "?P (df ! j)" using d by (simp add: period_month_next_year)
  have k4: "\<not> ?P (drop (Suc i) df ! a)" if "a < ?k" for a
  proof -
    have e: "drop (Suc i) df ! a = df ! (Suc i + a)" using that j by simp
    have "Date (df ! i) < Date (df ! (Suc i + a))" using mono [of i "Suc i + a"] that j by simp
    moreover have "Date (df ! (Suc i + a)) < Date (df ! j)"
      using mono [of "Suc i + a" j] that j by simp
    ultimately show ?thesis using d e period_month_between by simp
  qed
  have "find ?P (drop (Suc i) df) = Some (df ! j)"
    unfolding find_Some_iff using k1 k2 k3 k4 by (intro exI [of _ ?k]) auto
  then show ?thesis by (simp add: target_next_def)
qed

lemma target_next_last_of_group:
  assumes "\<forall>j. i < j \<and> j < length df \<longrightarrow>
             period_month (Date (df ! j)) \<noteq> period_month (Date (df ! i))"
  shows "target_next df i = None"
proof -
  have "find (\<lambda>s. period_month (Date s) = period_month (Date (df ! i))) (drop (Suc i) df) = None"
    unfolding find_None_iff
  proof
    assume "\<exists>x. x \<in> set (drop (Suc i) df) \<and> period_month (Date x) = period_month (Date (df ! i))"
    then obtain x where x: "x \<in> set (drop (Suc i) df)"
        "period_month (Date x) = period_month (Date (df ! i))" by blast
    from x(1) obtain a where a: "a < length (drop (Suc i) df)" "drop (Suc i) df ! a = x"
      by (auto simp: in_set_conv_nth)
    then have "Suc i + a < length df" "df ! (Suc i + a) = x" by auto
    with assms x(2) show False by auto
  qed
  then show ?thesis by (simp add: target_next_def)
qed

lemma deviation_expr_Some:
  "deviation_expr m (Some e) (Some t) (Some n)
     = Some ((12 - real_of_int m) / 12 * (e - t) + real_of_int m / 12 * (e - n))"
  by (simp add: deviation_expr_def)

lemma deviation_expr_None: "deviation_expr m e t None = None"
  by (cases e; cases t) (simp_all add: deviation_expr_def)

text \<open>
  What the code computes, for every row \<open>i\<close> of the panel: with \<open>m\<close> its calendar
  month number (between 1 and 12), \<open>e\<close> its expected inflation, \<open>t\<close> its current target
  and \<open>n\<close> the value of column \<open>inflation_target_next\<close> (the group-by-month shift, that
  is the target of the next row below with the same month number), each deviation
  column is \<open>(12 - m) / 12 * (e - t) + m / 12 * (e - n)\<close>.  When \<open>n\<close> is missing the
  deviations are missing, and it is missing for the last row of each month group.
  Only on a panel whose months are strictly ascending, and for a row whose month of
  the following year is in the panel, is \<open>n\<close> the target of the same calendar month of
  the following year.  At the specification's example (June, \<open>e = 5.0\<close>, \<open>t = 4.0\<close>,
  \<open>n = 3.5\<close>) the formula gives \<open>1.25\<close>.
\<close>

theorem calculate_deviation_formula:
  assumes "i < length df"
  shows "length (calculate_deviation_from_target df) = length df
    \<and> mes (calculate_deviation_from_target df ! i) = period_month (Date (df ! i))
    \<and> 1 \<le> mes (calculate_deviation_from_target df ! i)
    \<and> mes (calculate_deviation_from_target df ! i) \<le> 12
    \<and> inflation_target_next (calculate_deviation_from_target df ! i) = target_next df i
    \<and> (\<forall>e t n. focus_expected_inflation (df ! i) = Some e \<and> inflation_target (df ! i) = Some t
            \<and> target_next df i = Some n \<longrightarrow>
          focus_inflation_deviation (calculate_deviation_from_target df ! i)
            = Some ((12 - real_of_int (period_month (Date (df ! i)))) / 12 * (e - t)
                    + real_of_int (period_month (Date (df ! i))) / 12 * (e - n)))
    \<and> (\<forall>e t n. bcb_expected_inflation (df ! i) = Some e \<and> inflation_target (df ! i) = Some t
            \<and> target_next df i = Some n \<longrightarrow>
          bcb_inflation_deviation (calculate_deviation_from_target df ! i)
            = Some ((12 - real_of_int (period_month (Date (df ! i)))) / 12 * (e - t)
                    + real_of_int (period_month (Date (df ! i))) / 12 * (e - n)))
    \<and> (target_next df i = None \<longrightarrow>
          focus_inflation_deviation (calculate_deviation_from_target df ! i) = None
          \<and> bcb_inflation_deviation (calculate_deviation_from_target df ! i) = None)
    \<and> (\<forall>j. sorted_wrt (<) (map Date df) \<and> j < length df \<and> Date (df ! j) = Date (df ! i) + 12 \<longrightarrow>
          target_next df i = inflation_target (df ! j))
    \<and> ((\<forall>j. i < j \<and> j < length df \<longrightarrow>
             period_month (Date (df ! j)) \<noteq> period_month (Date (df ! i))) \<longrightarrow>
          target_next df i = None)"
proof -
  note n = calculate_deviation_nth [OF assms]
  have a: "mes (calculate_deviation_from_target df ! i) = period_month (Date (df ! i))"
    by (simp add: n)
  have b: "inflation_target_next (calculate_deviation_from_target df ! i) = target_next df i"
    by (simp add: n)
  have c: "focus_inflation_deviation (calculate_deviation_from_target df ! i)
       = Some ((12 - real_of_int (period_month (Date (df ! i)))) / 12 * (e - t)
                    + real_of_int (period_month (Date (df ! i))) / 12 * (e - k))"
    if "focus_expected_inflation (df ! i) = Some e" "inflation_target (df ! i) = Some t"
      "target_next df i = Some k" for e t k
    using that by (simp add: n deviation_expr_Some)
  have d: "bcb_inflation_deviation (calculate_deviation_from_target df ! i)
       = Some ((12 - real_of_int (period_month (Date (df ! i)))) / 12 * (e - t)
                    + real_of_int (period_month (Date (df ! i))) / 12 * (e - k))"
    if "bcb_expected_inflation (df ! i) = Some e" "inflation_target (df ! i) = Some t"
      "target_next df i = Some k" for e t k
    using that by (simp add: n deviation_expr_Some)
  have e: "focus_inflation_deviation (calculate_deviation_from_target df ! i) = None
          \<and> bcb_inflation_deviation (calculate_deviation_from_target df ! i) = None"
    if "target_next df i = None"
    using that by (simp add: n deviation_expr_None)
  have f: "target_next df i = inflation_target (df ! j)"
    if "sorted_wrt (<) (map Date df)" "j < length df" "Date (df ! j) = Date (df ! i) + 12" for j
    using target_next_following_year [OF that(1) assms that(2) that(3)] .
  show ?thesis
    using a b c d e f period_month_range [of "Date (df ! i)"] target_next_last_of_group [of i df]
    by (simp only: length_calculate_deviation) blast
qed

lemma panel0_sorted: "sorted_wrt (<) (map Date panel0)"
  by (simp add: panel0_def)

theorem calculate_deviation_formula_witness:
  "0 < length panel0
   \<and> mes (calculate_deviation_from_target panel0 ! 0) = 6
   \<and> inflation_target_next (calculate_deviation_from_target panel0 ! 0) = Some 3.5
   \<and> focus_inflation_deviation (calculate_deviation_from_target panel0 ! 0) = Some 1.25"
proof -
  have t: "target_next panel0 0 = Some 3.5"
    by (simp add: target_next_def panel0_def period_month_def)
  have m: "period_month (Date (panel0 ! 0)) = 6"
    by (simp add: panel0_def period_month_def)
  have x: "focus_expected_inflation (panel0 ! 0) = Some 5" "inflation_target (panel0 ! 0) = Some 4"
    by (simp_all add: panel0_def)
  have l: "0 < length panel0" by (simp add: panel0_def)
  note main = calculate_deviation_formula [OF l]
  have f: "focus_inflation_deviation (calculate_deviation_from_target panel0 ! 0)
            = Some ((12 - real_of_int (period_month (Date (panel0 ! 0)))) / 12 * (5 - 4)
                    + real_of_int (period_month (Date (panel0 ! 0))) / 12 * (5 - 3.5))"
    using main t x by blast
  have g: "mes (calculate_deviation_from_target panel0 ! 0) = period_month (Date (panel0 ! 0))"
    "inflation_target_next (calculate_deviation_from_target panel0 ! 0) = target_next panel0 0"
    using main by blast+
  show ?thesis
    using l f g by (simp add: t m)
qed

text \<open>
  Claim C2 says that the next target of a row is the target of the same calendar month
  of the following year, and that the deviation is missing when that target is not
  available; the docstring of \<open>calculate_deviation_from_target\<close> says
  \<open>inflation_target(t+1)\<close>.  The code takes the next row of the month group instead,
  whatever its year.  On the panel with June 2020 (target 4.0) and June 2022 (target
  3.0), expected inflation 5.0: the panel has no June 2021, and the code gives June 2020
  the target of June 2022 as its next target and the deviation
  \<open>6/12 * (5 - 4) + 6/12 * (5 - 3) = 1.5\<close>, where the claim has a missing value.
\<close>

theorem calculate_deviation_skipped_year:
  "map ano (calculate_deviation_from_target panel_gap) = [2020, 2022]
   \<and> map mes (calculate_deviation_from_target panel_gap) = [6, 6]
   \<and> map inflation_target_next (calculate_deviation_from_target panel_gap) = [Some 3, None]
   \<and> map focus_inflation_deviation (calculate_deviation_from_target panel_gap)
       = [Some 1.5, None]
   \<and> map bcb_inflation_deviation (calculate_deviation_from_target panel_gap)
       = [Some 1.5, None]"
  by (simp add: calculate_deviation_from_target_def panel_gap_def period_year_def
      period_month_def deviation_expr_def)

section \<open>Properties of resample\_annualy\_to\_monthly\<close>


lemma length_ffill_from [simp]: "length (ffill_from l xs) = length xs"
  by (induction l xs rule: ffill_from.induct) auto

lemma ffill_from_0:
  "xs \<noteq> [] \<Longrightarrow> ffill_from l xs ! 0 = (case xs ! 0 of None \<Rightarrow> l | Some v \<Rightarrow> Some v)"
  by (induction l xs rule: ffill_from.induct) auto

lemma ffill_from_Suc:
  "Suc i < length xs \<Longrightarrow>
   ffill_from l xs ! Suc i = (case xs ! Suc i of None \<Rightarrow> ffill_from l xs ! i | Some v \<Rightarrow> Some v)"
proof (induction l xs arbitrary: i rule: ffill_from.induct)
  case (1 prev)
  then show ?case by simp
next
  case (2 prev xs)
  then show ?case by (cases i) (auto simp: ffill_from_0 split: option.splits)
next
  case (3 prev v xs)
  then show ?case by (cases i) (auto simp: ffill_from_0 split: option.splits)
qed

lemma ffill_nth:
  assumes "i < length xs"
  shows "ffill xs ! i =
     (case xs ! i of Some v \<Rightarrow> Some v | None \<Rightarrow> (if i = 0 then None else ffill xs ! (i - 1)))"
proof (cases i)
  case 0
  with assms show ?thesis by (auto simp: ffill_def ffill_from_0 split: option.splits)
next
  case (Suc k)
  with assms show ?thesis by (auto simp: ffill_def ffill_from_Suc split: option.splits)
qed

lemma nan_add_None_iff: "nan_add a b \<noteq> None \<longleftrightarrow> a \<noteq> None \<and> b \<noteq> None"
  by (cases a; cases b) simp_all

lemma nan_sub_None_iff: "nan_sub a b \<noteq> None \<longleftrightarrow> a \<noteq> None \<and> b \<noteq> None"
  by (cases a; cases b) simp_all

lemma resample_MS_asfreq_nth:
  "resample_MS_asfreq rows = Inr monthly \<Longrightarrow> i < length monthly \<Longrightarrow>
     snd (monthly ! i) = map_of rows (fst (monthly ! i))"
  by (auto simp: resample_MS_asfreq_def split: if_splits)

lemma resample_annual_rows:
  assumes "resample_annualy_to_monthly df = Inr out"
  shows "\<exists>monthly. resample_MS_asfreq (annual_keyed df) = Inr monthly
     \<and> length out = length monthly
     \<and> (\<forall>i<length monthly.
           out ! i = \<lparr>tr_Date = month_start (fst (monthly ! i)),
               tr_inflation_target = ffill (map (\<lambda>r. cell_target (snd r)) monthly) ! i,
               tr_interval_size = cell_interval (snd (monthly ! i)),
               tr_upper_limit = nan_add (ffill (map (\<lambda>r. cell_target (snd r)) monthly) ! i)
                                  (cell_interval (snd (monthly ! i))),
               tr_lower_limit = nan_sub (ffill (map (\<lambda>r. cell_target (snd r)) monthly) ! i)
                                  (cell_interval (snd (monthly ! i)))\<rparr>)"
proof (cases "resample_MS_asfreq (annual_keyed df)")
  case (Inl e)
  with assms show ?thesis by (simp add: resample_annualy_to_monthly_def)
next
  case (Inr monthly)
  with assms have out: "out = map (\<lambda>(r, t, s).
                      \<lparr>tr_Date = month_start (fst r), tr_inflation_target = t,
                       tr_interval_size = s, tr_upper_limit = nan_add t s,
                       tr_lower_limit = nan_sub t s\<rparr>)
                    (zip monthly (zip (ffill (map (\<lambda>r. cell_target (snd r)) monthly))
                       (map (\<lambda>r. cell_interval (snd r)) monthly)))"
    by (simp add: resample_annualy_to_monthly_def Let_def)
  have "length out = length monthly" by (simp add: out ffill_def)
  moreover have "out ! i = \<lparr>tr_Date = month_start (fst (monthly ! i)),
               tr_inflation_target = ffill (map (\<lambda>r. cell_target (snd r)) monthly) ! i,
               tr_interval_size = cell_interval (snd (monthly ! i)),
               tr_upper_limit = nan_add (ffill (map (\<lambda>r. cell_target (snd r)) monthly) ! i)
                                  (cell_interval (snd (monthly ! i))),
               tr_lower_limit = nan_sub (ffill (map (\<lambda>r. cell_target (snd r)) monthly) ! i)
                                  (cell_interval (snd (monthly ! i)))\<rparr>"
    if "i < length monthly" for i
    using that by (simp add: out ffill_def)
  ultimately show ?thesis using Inr by blast
qed

text \<open>
  Claim C4, amended: \<open>resample_annualy_to_monthly\<close> reindexes the annual table to month
  starts and forward-fills the target (a month without an observation takes the
  previous month's filled target).  The interval width is not forward-filled: it is
  the width observed at that very month, missing otherwise.  The upper and lower bounds
  are the filled target plus and minus that width, so they are defined exactly at the
  months where the filled target is defined and an interval width is observed, and
  are missing at every month that has no annual row of its own.
\<close>

theorem resample_annual_bounds:
  assumes "resample_annualy_to_monthly df = Inr out" and "i < length out"
  shows "\<exists>monthly. resample_MS_asfreq (annual_keyed df) = Inr monthly
     \<and> length out = length monthly
     \<and> tr_Date (out ! i) = month_start (fst (monthly ! i))
     \<and> snd (monthly ! i) = map_of (annual_keyed df) (fst (monthly ! i))
     \<and> tr_interval_size (out ! i) = cell_interval (snd (monthly ! i))
     \<and> tr_inflation_target (out ! i) =
          (case cell_target (snd (monthly ! i)) of
             Some v \<Rightarrow> Some v
           | None \<Rightarrow> (if i = 0 then None else tr_inflation_target (out ! (i - 1))))
     \<and> tr_upper_limit (out ! i) = nan_add (tr_inflation_target (out ! i)) (tr_interval_size (out ! i))
     \<and> tr_lower_limit (out ! i) = nan_sub (tr_inflation_target (out ! i)) (tr_interval_size (out ! i))
     \<and> (tr_upper_limit (out ! i) \<noteq> None \<longleftrightarrow>
          tr_inflation_target (out ! i) \<noteq> None \<and> cell_interval (snd (monthly ! i)) \<noteq> None)
     \<and> (tr_lower_limit (out ! i) \<noteq> None \<longleftrightarrow>
          tr_inflation_target (out ! i) \<noteq> None \<and> cell_interval (snd (monthly ! i)) \<noteq> None)
     \<and> (map_of (annual_keyed df) (fst (monthly ! i)) = None \<longrightarrow>
          tr_upper_limit (out ! i) = None \<and> tr_lower_limit (out ! i) = None)"
proof -
  from resample_annual_rows [OF assms(1)] obtain monthly where
    m: "resample_MS_asfreq (annual_keyed df) = Inr monthly" and
    l: "length out = length monthly" and
    r: "\<And>k. k < length monthly \<Longrightarrow>
           out ! k = \<lparr>tr_Date = month_start (fst (monthly ! k)),
               tr_inflation_target = ffill (map (\<lambda>r. cell_target (snd r)) monthly) ! k,
               tr_interval_size = cell_interval (snd (monthly ! k)),
               tr_upper_limit = nan_add (ffill (map (\<lambda>r. cell_target (snd r)) monthly) ! k)
                                  (cell_interval (snd (monthly ! k))),
               tr_lower_limit = nan_sub (ffill (map (\<lambda>r. cell_target (snd r)) monthly) ! k)
                                  (cell_interval (snd (monthly ! k)))\<rparr>"
    by blast
  have i: "i < length monthly" using assms(2) l by simp
  have s: "snd (monthly ! i) = map_of (annual_keyed df) (fst (monthly ! i))"
    using resample_MS_asfreq_nth [OF m i] .
  have t: "tr_inflation_target (out ! i) =
          (case cell_target (snd (monthly ! i)) of
             Some v \<Rightarrow> Some v
           | None \<Rightarrow> (if i = 0 then None else tr_inflation_target (out ! (i - 1))))"
  proof -
    have a: "tr_inflation_target (out ! k) = ffill (map (\<lambda>r. cell_target (snd r)) monthly) ! k"
      if "k < length monthly" for k
      using r [OF that] by simp
    have b: "i - 1 < length monthly" using i by simp
    have c: "map (\<lambda>r. cell_target (snd r)) monthly ! i = cell_target (snd (monthly ! i))"
      using i by simp
    show ?thesis
      unfolding a [OF i] a [OF b]
      using ffill_nth [of i "map (\<lambda>r. cell_target (snd r)) monthly"] i
      by (simp only: c length_map)
  qed
  have f1: "tr_Date (out ! i) = month_start (fst (monthly ! i))"
    using r [OF i] by simp
  have f2: "tr_interval_size (out ! i) = cell_interval (snd (monthly ! i))"
    using r [OF i] by simp
  have f3: "tr_upper_limit (out ! i)
      = nan_add (tr_inflation_target (out ! i)) (tr_interval_size (out ! i))"
    using r [OF i] by simp
  have f4: "tr_lower_limit (out ! i)
      = nan_sub (tr_inflation_target (out ! i)) (tr_interval_size (out ! i))"
    using r [OF i] by simp
  have f5: "tr_upper_limit (out ! i) \<noteq> None \<longleftrightarrow>
          tr_inflation_target (out ! i) \<noteq> None \<and> cell_interval (snd (monthly ! i)) \<noteq> None"
    unfolding f3 f2 by (rule nan_add_None_iff)
  have f6: "tr_lower_limit (out ! i) \<noteq> None \<longleftrightarrow>
          tr_inflation_target (out ! i) \<noteq> None \<and> cell_interval (snd (monthly ! i)) \<noteq> None"
    unfolding f4 f2 by (rule nan_sub_None_iff)
  have n: "tr_upper_limit (out ! i) = None \<and> tr_lower_limit (out ! i) = None"
    if "map_of (annual_keyed df) (fst (monthly ! i)) = None"
  proof -
    from that s have "cell_interval (snd (monthly ! i)) = None"
      by (simp add: cell_interval_def)
    with f5 f6 show ?thesis by blast
  qed
  from n have n': "map_of (annual_keyed df) (fst (monthly ! i)) = None \<longrightarrow>
          tr_upper_limit (out ! i) = None \<and> tr_lower_limit (out ! i) = None"
    by (rule impI)
  show ?thesis
    by (rule exI [of _ monthly]) (intro conjI m l s t n' f1 f2 f3 f4 f5 f6)
qed


text \<open>
  Claim C4, as stated: the interval width is forward-filled, so the bounds are defined
  at every month at which the filled target is.  Targets for 2020 and 2021 with width
  1.5: in February 2020 the filled target is 4.0, and the width and both bounds are
  missing.
\<close>

theorem resample_annual_bounds_counterexample:
  "(case resample_annualy_to_monthly targets0 of
      Inl e \<Rightarrow> False
    | Inr out \<Rightarrow> tr_Date (out ! 1) = Timestamp 2020 2 1
        \<and> tr_inflation_target (out ! 1) = Some 4
        \<and> tr_interval_size (out ! 1) = None
        \<and> tr_upper_limit (out ! 1) = None
        \<and> tr_lower_limit (out ! 1) = None)"
  by code_simp


theorem resample_annual_bounds_witness:
  "resample_annualy_to_monthly targets0 = Inr (projr (resample_annualy_to_monthly targets0))
   \<and> 1 < length (projr (resample_annualy_to_monthly targets0))
   \<and> tr_inflation_target (projr (resample_annualy_to_monthly targets0) ! 1) = Some 4
   \<and> tr_upper_limit (projr (resample_annualy_to_monthly targets0) ! 1)
       = nan_add (tr_inflation_target (projr (resample_annualy_to_monthly targets0) ! 1))
           (tr_interval_size (projr (resample_annualy_to_monthly targets0) ! 1))"
proof -
  have "\<not> isl (resample_annualy_to_monthly targets0)" by code_simp
  then have h1: "resample_annualy_to_monthly targets0
      = Inr (projr (resample_annualy_to_monthly targets0))" by simp
  have h2: "1 < length (projr (resample_annualy_to_monthly targets0))" by code_simp
  have h3: "tr_inflation_target (projr (resample_annualy_to_monthly targets0) ! 1) = Some 4"
    by code_simp
  from resample_annual_bounds [OF h1 h2]
  have "tr_upper_limit (projr (resample_annualy_to_monthly targets0) ! 1)
       = nan_add (tr_inflation_target (projr (resample_annualy_to_monthly targets0) ! 1))
           (tr_interval_size (projr (resample_annualy_to_monthly targets0) ! 1))"
    by (elim exE conjE)
  with h1 h2 h3 show ?thesis by (intro conjI)
qed

section \<open>Properties of the estimator\<close>

lemma smf_ols_Inr:
  "smf_ols f dep regs data = Inr m \<Longrightarrow>
     nobs m = length (filter (complete_row (dep # regs)) data)
     \<and> filter (complete_row (dep # regs)) data \<noteq> []"
  by (auto simp: smf_ols_def Let_def nobs_def split: if_splits)

lemma smf_ols_ok:
  "filter (complete_row (dep # regs)) data \<noteq> [] \<Longrightarrow>
     \<exists>m. smf_ols f dep regs data = Inr m
       \<and> nobs m = length (filter (complete_row (dep # regs)) data)"
  by (simp add: smf_ols_def Let_def nobs_def)

lemma length_filter_disjoint:
  assumes "\<And>x. x \<in> set xs \<Longrightarrow> R x \<longleftrightarrow> P x \<or> Q x"
    and "\<And>x. x \<in> set xs \<Longrightarrow> \<not> (P x \<and> Q x)"
  shows "length (filter R xs) = length (filter P xs) + length (filter Q xs)"
  using assms by (induction xs) auto

lemma year_range_split:
  assumes "a \<le> b + 1" and "b \<le> c"
  shows "in_year_range (a, c) r \<longleftrightarrow> in_year_range (a, b) r \<or> in_year_range (b + 1, c) r"
    and "\<not> (in_year_range (a, b) r \<and> in_year_range (b + 1, c) r)"
  using assms by (auto simp: in_year_range_def)

lemma filter_filter_witness:
  "filter V (filter P D) \<noteq> [] \<Longrightarrow> \<exists>r. P r"
  by (induction D) (auto split: if_splits)

lemma sample_partition:
  assumes n1: "filter V (filter (in_year_range (a, b)) D) \<noteq> []"
    and n2: "filter V (filter (in_year_range (b + 1, c)) D) \<noteq> []"
  shows "length (filter V (filter (in_year_range (a, c)) D))
      = length (filter V (filter (in_year_range (a, b)) D))
        + length (filter V (filter (in_year_range (b + 1, c)) D))"
    and "filter V (filter (in_year_range (a, c)) D) \<noteq> []"
proof -
  from n1 obtain r where "in_year_range (a, b) r"
    using filter_filter_witness by blast
  then have ab: "a \<le> b + 1" by (simp add: in_year_range_def)
  from n2 obtain s where "in_year_range (b + 1, c) s"
    using filter_filter_witness by blast
  then have bc: "b \<le> c" by (simp add: in_year_range_def)
  have e: "filter V (filter (in_year_range yr) D) = filter (\<lambda>r. in_year_range yr r \<and> V r) D" for yr
    by simp
  show l: "length (filter V (filter (in_year_range (a, c)) D))
      = length (filter V (filter (in_year_range (a, b)) D))
        + length (filter V (filter (in_year_range (b + 1, c)) D))"
    unfolding e using year_range_split [OF ab bc]
    by (intro length_filter_disjoint) auto
  from n1 have "0 < length (filter V (filter (in_year_range (a, b)) D))" by simp
  with l show "filter V (filter (in_year_range (a, c)) D) \<noteq> []"
    by (metis add_gr_0 length_greater_0_conv)
qed

lemma estimate_range_Inr:
  assumes "estimate_range st self yr = Inr (st', m1, m2, m3)"
  shows "\<exists>st1. source_column st self = Inr st1 \<and> st' = apply_lag st1 self
     \<and> smf_ols ''selic_target ~ selic_target_lag + inf_dev'' selic_target
           [selic_target_lag, inf_dev] (filter (in_year_range yr) (st' ! est_data self)) = Inr m1
     \<and> smf_ols ''selic_target ~ selic_target_lag + inf_dev + output_gap_lag'' selic_target
           [selic_target_lag, inf_dev, output_gap_lag]
           (filter (in_year_range yr) (st' ! est_data self)) = Inr m2
     \<and> smf_ols ''selic_target ~ selic_target_lag + inf_dev + output_gap_lag + exchange_rate_var_lag''
           selic_target [selic_target_lag, inf_dev, output_gap_lag, exchange_rate_var_lag]
           (filter (in_year_range yr) (st' ! est_data self)) = Inr m3"
  using assms
  by (auto simp: estimate_range_def Let_def split: sum.splits if_splits)

lemma estimate_range_ok:
  assumes "source_column st self = Inr st1"
    and "smf_ols ''selic_target ~ selic_target_lag + inf_dev'' selic_target
           [selic_target_lag, inf_dev]
           (filter (in_year_range yr) (apply_lag st1 self ! est_data self)) = Inr m1"
    and "smf_ols ''selic_target ~ selic_target_lag + inf_dev + output_gap_lag'' selic_target
           [selic_target_lag, inf_dev, output_gap_lag]
           (filter (in_year_range yr) (apply_lag st1 self ! est_data self)) = Inr m2"
    and "smf_ols ''selic_target ~ selic_target_lag + inf_dev + output_gap_lag + exchange_rate_var_lag''
           selic_target [selic_target_lag, inf_dev, output_gap_lag, exchange_rate_var_lag]
           (filter (in_year_range yr) (apply_lag st1 self ! est_data self)) = Inr m3"
  shows "estimate_range st self yr = Inr (apply_lag st1 self, m1, m2, m3)"
proof -
  from smf_ols_Inr [OF assms(2)]
  have "filter (complete_row [selic_target, selic_target_lag, inf_dev])
          (filter (in_year_range yr) (apply_lag st1 self ! est_data self)) \<noteq> []"
    by (rule conjunct2)
  then have "filter (in_year_range yr) (apply_lag st1 self ! est_data self) \<noteq> []"
    by (metis filter.simps(1))
  with assms show ?thesis
    by (simp add: estimate_range_def Let_def)
qed

text \<open>
  Claim C9: for every store, final panel, source and lag, with no dummy interaction:
  when the estimation over the inclusive year range \<open>(a, b)\<close> and the estimation over
  \<open>(b + 1, c)\<close> both return their models (each on its own new estimator, as the pipeline
  runs them), the estimation over \<open>(a, c)\<close> returns too, and for each of the three
  specifications its sample size is the sum of the two sample sizes.  The claim's
  ranges are \<open>a = 5\<close>, \<open>b = 10\<close>, \<open>c = max\<close>.
\<close>

theorem estimate_range_partition:
  assumes w1: "estimate_taylor_rule st panel source lag (a, b) = Inr (st1, i1, ii1, iii1)"
    and w2: "estimate_taylor_rule st panel source lag (b + 1, c) = Inr (st2, i2, ii2, iii2)"
  shows "\<exists>st3 i3 ii3 iii3.
       estimate_taylor_rule st panel source lag (a, c) = Inr (st3, i3, ii3, iii3)
     \<and> nobs i3 = nobs i1 + nobs i2
     \<and> nobs ii3 = nobs ii1 + nobs ii2
     \<and> nobs iii3 = nobs iii1 + nobs iii2"
proof -
  obtain s0 self where init: "TaylorRuleEstimator_init st panel source lag = (s0, self)"
    by (cases "TaylorRuleEstimator_init st panel source lag")
  from w1 init have e1: "estimate_range s0 self (a, b) = Inr (st1, i1, ii1, iii1)"
    by (simp add: estimate_taylor_rule_def)
  from w2 init have e2: "estimate_range s0 self (b + 1, c) = Inr (st2, i2, ii2, iii2)"
    by (simp add: estimate_taylor_rule_def)
  from estimate_range_Inr [OF e1] obtain sc where
    sc: "source_column s0 self = Inr sc" and st1: "st1 = apply_lag sc self" by blast
  from estimate_range_Inr [OF e2] sc have st2: "st2 = apply_lag sc self" by auto
  let ?D = "apply_lag sc self ! est_data self"
  note r1 = estimate_range_Inr [OF e1, unfolded st1] 
  note r2 = estimate_range_Inr [OF e2, unfolded st2]
  let ?V1 = "[selic_target_lag, inf_dev]"
  let ?V2 = "[selic_target_lag, inf_dev, output_gap_lag]"
  let ?V3 = "[selic_target_lag, inf_dev, output_gap_lag, exchange_rate_var_lag]"
  have p: "\<exists>m. smf_ols f selic_target V (filter (in_year_range (a, c)) ?D) = Inr m
        \<and> nobs m = nobs x + nobs y"
    if "smf_ols f selic_target V (filter (in_year_range (a, b)) ?D) = Inr x"
      and "smf_ols f selic_target V (filter (in_year_range (b + 1, c)) ?D) = Inr y" for f V x y
  proof -
    note x = smf_ols_Inr [OF that(1)] and y = smf_ols_Inr [OF that(2)]
    from x y sample_partition [of "complete_row (selic_target # V)" a b ?D c]
    have l: "length (filter (complete_row (selic_target # V)) (filter (in_year_range (a, c)) ?D))
        = nobs x + nobs y"
      and n: "filter (complete_row (selic_target # V)) (filter (in_year_range (a, c)) ?D) \<noteq> []"
      by simp_all
    from smf_ols_ok [OF n, of f] l show ?thesis by auto
  qed
  from r1 r2 sc p [of _ ?V1 i1 i2] obtain i3 where
    i3: "smf_ols ''selic_target ~ selic_target_lag + inf_dev'' selic_target ?V1
           (filter (in_year_range (a, c)) ?D) = Inr i3" "nobs i3 = nobs i1 + nobs i2"
    by auto
  from r1 r2 sc p [of _ ?V2 ii1 ii2] obtain ii3 where
    ii3: "smf_ols ''selic_target ~ selic_target_lag + inf_dev + output_gap_lag'' selic_target ?V2
           (filter (in_year_range (a, c)) ?D) = Inr ii3" "nobs ii3 = nobs ii1 + nobs ii2"
    by auto
  from r1 r2 sc p [of _ ?V3 iii1 iii2] obtain iii3 where
    iii3: "smf_ols ''selic_target ~ selic_target_lag + inf_dev + output_gap_lag + exchange_rate_var_lag''
           selic_target ?V3 (filter (in_year_range (a, c)) ?D) = Inr iii3"
       "nobs iii3 = nobs iii1 + nobs iii2"
    by auto
  from estimate_range_ok [OF sc i3(1) ii3(1) iii3(1)] init
  have "estimate_taylor_rule st panel source lag (a, c) = Inr (apply_lag sc self, i3, ii3, iii3)"
    by (simp add: estimate_taylor_rule_def)
  with i3(2) ii3(2) iii3(2) show ?thesis by blast
qed

theorem estimate_range_partition_witness:
  "\<exists>st3 i3 ii3 iii3.
       estimate_taylor_rule [est_panel0] 0 ''market'' 1 (5, 12) = Inr (st3, i3, ii3, iii3)
     \<and> nobs i3 = 1 + 2 \<and> nobs ii3 = 1 + 2 \<and> nobs iii3 = 1 + 2"
proof -
  let ?X1 = "estimate_taylor_rule [est_panel0] 0 ''market'' 1 (5, 10)"
  let ?X2 = "estimate_taylor_rule [est_panel0] 0 ''market'' 1 (10 + 1, 12)"
  have a1: "\<not> isl ?X1" by code_simp
  have a2: "\<not> isl ?X2" by code_simp
  have n1: "nobs (fst (snd (projr ?X1))) = 1" "nobs (fst (snd (snd (projr ?X1)))) = 1"
    "nobs (snd (snd (snd (projr ?X1)))) = 1"
    by code_simp+
  have n2: "nobs (fst (snd (projr ?X2))) = 2" "nobs (fst (snd (snd (projr ?X2)))) = 2"
    "nobs (snd (snd (snd (projr ?X2)))) = 2"
    by code_simp+
  have h1: "?X1 = Inr (fst (projr ?X1), fst (snd (projr ?X1)), fst (snd (snd (projr ?X1))),
       snd (snd (snd (projr ?X1))))"
    using a1 by (simp del: One_nat_def)
  have h2: "?X2 = Inr (fst (projr ?X2), fst (snd (projr ?X2)), fst (snd (snd (projr ?X2))),
       snd (snd (snd (projr ?X2))))"
    using a2 by (simp del: One_nat_def)
  from estimate_range_partition [OF h1 h2] show ?thesis
    unfolding n1 n2 .
qed

lemma source_column_frame:
  "source_column st self = Inr st1 \<Longrightarrow> r \<noteq> est_data self \<Longrightarrow> st1 ! r = st ! r"
  by (auto simp: source_column_def split: if_splits)

lemma apply_lag_frame: "r \<noteq> est_data self \<Longrightarrow> apply_lag st self ! r = st ! r"
  by (simp add: apply_lag_def Let_def)

lemma estimate_range_frame:
  "estimate_range st self yr = Inr (st', ms) \<Longrightarrow> r \<noteq> est_data self \<Longrightarrow> st' ! r = st ! r"
  by (cases ms) (auto dest!: estimate_range_Inr simp: apply_lag_frame source_column_frame)

lemma estimate_taylor_rule_frame:
  assumes "estimate_taylor_rule st panel source lag yr = Inr (st', ms)" and "r < length st"
  shows "st' ! r = st ! r"
proof -
  let ?self = "\<lparr>est_data = length st, est_source = source, est_lag = lag\<rparr>"
  from assms(1) have "estimate_range (st @ [st ! panel]) ?self yr = Inr (st', ms)"
    by (simp add: estimate_taylor_rule_def TaylorRuleEstimator_init_def alloc_def)
  from estimate_range_frame [OF this, of r] assms(2) show ?thesis
    by (simp add: nth_append)
qed

section \<open>Properties of merge\_datasets\<close>

lemma not_duplicated: "distinct xs \<Longrightarrow> i < length xs \<Longrightarrow> \<not> duplicated xs ! i"
  by (auto simp: duplicated_def in_set_conv_nth nth_eq_iff_index_eq)

lemma no_suffix_dups: "distinct renamed \<Longrightarrow> length renamed = length original \<Longrightarrow>
    \<not> suffix_dups renamed original"
  by (auto simp: suffix_dups_def not_duplicated)

lemma suffix_x_not_Date: "n @ ''_x'' \<noteq> ''Date''"
proof
  assume "n @ ''_x'' = ''Date''"
  then have "last (n @ ''_x'') = last ''Date''" by (rule arg_cong)
  then show False by simp
qed

lemma filter_upt_eq: "filter (\<lambda>j. j = i) [0..<n] = (if i < n then [i] else [])"
  by (induction n) auto

lemma left_join_pairs_self:
  assumes "distinct keys"
  shows "left_join_pairs keys keys = map (\<lambda>i. (i, Some i)) [0..<length keys]"
proof -
  have "filter (\<lambda>j. keys ! j = keys ! i) [0..<length keys] = [i]" if "i < length keys" for i
  proof -
    have "filter (\<lambda>j. keys ! j = keys ! i) [0..<length keys]
        = filter (\<lambda>j. j = i) [0..<length keys]"
      using assms that by (intro filter_cong) (auto simp: nth_eq_iff_index_eq)
    with that show ?thesis by (simp add: filter_upt_eq)
  qed
  then have m: "map (\<lambda>i. case filter (\<lambda>j. keys ! j = keys ! i) [0..<length keys] of
          [] \<Rightarrow> [(i, None)]
        | js \<Rightarrow> map (\<lambda>j. (i, Some j)) js) [0..<length keys]
      = map (\<lambda>i. [(i, Some i)]) [0..<length keys]"
    by (intro map_cong) auto
  have c: "concat (map (\<lambda>i. [f i]) xs) = map f xs" for f :: "nat \<Rightarrow> nat \<times> nat option" and xs
    by (induction xs) auto
  show ?thesis
    unfolding left_join_pairs_def m by (rule c)
qed

lemma take_opt_all: "take_opt (map Some [0..<length xs]) xs = xs"
  by (simp add: take_opt_def comp_def map_nth)

lemma col_take_all: "col_len c = n \<Longrightarrow> col_take (map Some [0..<n]) c = c"
  by (cases c) (auto simp: take_opt_all)

lemma length_col_cells [simp]: "length (col_cells c) = col_len c"
  by (cases c) auto

lemma suffix_x_inj:
  "(if n \<noteq> ''Date'' then n @ ''_x'' else n) = (if m \<noteq> ''Date'' then m @ ''_x'' else m) \<Longrightarrow> n = m"
  using suffix_x_not_Date [of n] suffix_x_not_Date [of m] by (auto split: if_splits)

lemma pd_merge_left_self:
  assumes d: "distinct (map fst A)"
    and k: "map_of A ''Date'' = Some key"
    and u: "distinct (col_cells key)"
    and wf: "\<forall>c\<in>set A. col_len (snd c) = col_len key"
  shows "pd_merge_left A A =
     Inr (map (\<lambda>c. (if fst c \<noteq> ''Date'' then fst c @ ''_x'' else fst c, snd c)) A
          @ map (\<lambda>c. (fst c @ ''_y'', snd c)) (filter (\<lambda>c. fst c \<noteq> ''Date'') A))"
proof -
  let ?R = "filter (\<lambda>c. fst c \<noteq> ''Date'') A"
  let ?ren = "filter (\<lambda>n. n \<in> set (map fst ?R)) (map fst A)"
  have ren: "n \<in> set ?ren \<longleftrightarrow> n \<in> set (map fst A) \<and> n \<noteq> ''Date''" for n
    by auto
  have ll: "map (\<lambda>n. if n \<in> set ?ren then n @ ''_x'' else n) (map fst A)
      = map (\<lambda>n. if n \<noteq> ''Date'' then n @ ''_x'' else n) (map fst A)"
    by (intro map_cong) (auto simp: ren)
  have rl: "map (\<lambda>n. if n \<in> set ?ren then n @ ''_y'' else n) (map fst ?R)
      = map (\<lambda>n. n @ ''_y'') (map fst ?R)"
    by (intro map_cong) auto
  have il: "inj_on (\<lambda>n. if n \<noteq> ''Date'' then n @ ''_x'' else n) (set (map fst A))"
    by (rule inj_onI) (rule suffix_x_inj)
  have dl: "distinct (map (\<lambda>n. if n \<noteq> ''Date'' then n @ ''_x'' else n) (map fst A))"
    using d il by (simp only: distinct_map) 
  have dR: "distinct (map fst ?R)"
    using d by (rule distinct_map_filter)
  have ir: "inj_on (\<lambda>n. n @ ''_y'') (set (map fst ?R))"
    by (rule inj_onI) simp
  have dr: "distinct (map (\<lambda>n. n @ ''_y'') (map fst ?R))"
    using dR ir by (simp only: distinct_map)
  have nl: "\<not> suffix_dups (map (\<lambda>n. if n \<noteq> ''Date'' then n @ ''_x'' else n) (map fst A)) (map fst A)"
    using dl by (intro no_suffix_dups) auto
  have nr: "\<not> suffix_dups (map (\<lambda>n. n @ ''_y'') (map fst ?R)) (map fst ?R)"
    using dr by (intro no_suffix_dups) auto
  have pairs: "left_join_pairs (col_cells key) (col_cells key)
      = map (\<lambda>i. (i, Some i)) [0..<col_len key]"
    using left_join_pairs_self [OF u] by simp
  have tl: "map (\<lambda>c. col_take (map (\<lambda>p. Some (fst p)) (map (\<lambda>i. (i, Some i)) [0..<col_len key])) (snd c)) A
      = map snd A"
    using wf by (intro map_cong) (auto simp: comp_def col_take_all)
  have tr: "map (\<lambda>c. col_take (map snd (map (\<lambda>i. (i, Some i)) [0..<col_len key])) (snd c)) ?R
      = map snd ?R"
    using wf by (intro map_cong) (auto simp: comp_def col_take_all)
  have zl: "zip (map (\<lambda>n. if n \<noteq> ''Date'' then n @ ''_x'' else n) (map fst A)) (map snd A)
      = map (\<lambda>c. (if fst c \<noteq> ''Date'' then fst c @ ''_x'' else fst c, snd c)) A"
    by (induction A) auto
  have zr: "zip (map (\<lambda>n. n @ ''_y'') (map fst ?R)) (map snd ?R)
      = map (\<lambda>c. (fst c @ ''_y'', snd c)) ?R"
    by (induction A) auto
  show ?thesis
    unfolding pd_merge_left_def Let_def
    by (simp only: k prod.case option.case if_False simp_thms ll rl nl nr pairs tl tr zl zr)
qed

lemma set_column_names [simp]: "map fst (set_column df n c) = map fst df"
  by (induction df) (auto simp: set_column_def)

lemma map_of_set_column_same:
  "map_of df n = Some old \<Longrightarrow> map_of (set_column df n c) n = Some c"
  by (induction df) (auto simp: set_column_def split: if_splits)

lemma map_of_set_column_other:
  "m \<noteq> n \<Longrightarrow> map_of (set_column df n c) m = map_of df m"
  by (induction df) (auto simp: set_column_def)

lemma set_column_lens:
  assumes "\<forall>x\<in>set df. col_len (snd x) = k" and "col_len c = k"
  shows "\<forall>x\<in>set (set_column df n c). col_len (snd x) = k"
  using assms by (auto simp: set_column_def)

lemma date_to_period_Inr:
  assumes "date_to_period st df = Inr st'"
  shows "\<exists>ds. map_of (st ! df) ''Date'' = Some (DatetimeCol ds)
     \<and> st' = st[df := set_column (st ! df) ''Date'' (PeriodCol (map (map_option to_period) ds))]"
  using assms by (auto simp: date_to_period_def split: option.splits column.splits)

lemma dates_to_periods_Inr:
  assumes "dates_to_periods st dfs = Inr st'"
  shows "length st' = length st
    \<and> (\<forall>r<length st. r \<notin> set dfs \<longrightarrow> st' ! r = st ! r)
    \<and> (\<forall>r<length st. r \<in> set dfs \<longrightarrow>
          (\<exists>ds. map_of (st ! r) ''Date'' = Some (DatetimeCol ds)
             \<and> st' ! r = set_column (st ! r) ''Date'' (PeriodCol (map (map_option to_period) ds))))"
  using assms
proof (induction dfs arbitrary: st)
  case Nil
  then show ?case by simp
next
  case (Cons df dfs)
  from Cons.prems obtain st1 where s1: "date_to_period st df = Inr st1"
    and s2: "dates_to_periods st1 dfs = Inr st'"
    by (auto split: sum.splits)
  from date_to_period_Inr [OF s1] obtain ds where
    ds: "map_of (st ! df) ''Date'' = Some (DatetimeCol ds)"
    and st1: "st1 = st[df := set_column (st ! df) ''Date'' (PeriodCol (map (map_option to_period) ds))]"
    by blast
  note ih = Cons.IH [OF s2]
  have len: "length st1 = length st" by (simp add: st1)
  have other: "st1 ! r = st ! r" if "r \<noteq> df" for r using that by (simp add: st1)
  have self: "st1 ! df = set_column (st ! df) ''Date'' (PeriodCol (map (map_option to_period) ds))"
    if "df < length st"
    using that by (simp add: st1)
  have notin: "df \<notin> set dfs" if v: "df < length st"
  proof
    assume "df \<in> set dfs"
    with ih v len obtain ds' where "map_of (st1 ! df) ''Date'' = Some (DatetimeCol ds')"
      by auto
    then show False
      using self [OF v] map_of_set_column_same [OF ds] by simp
  qed
  have a: "length st' = length st" using ih len by simp
  have b: "st' ! r = st ! r" if "r < length st" "r \<notin> set (df # dfs)" for r
    using that ih len other [of r] by auto
  have c: "\<exists>ds. map_of (st ! r) ''Date'' = Some (DatetimeCol ds)
             \<and> st' ! r = set_column (st ! r) ''Date'' (PeriodCol (map (map_option to_period) ds))"
    if r: "r < length st" "r \<in> set (df # dfs)" for r
  proof (cases "r = df")
    case True
    with r notin have "df \<notin> set dfs" by simp
    with ih r len True have "st' ! df = st1 ! df" by auto
    with self r True ds show ?thesis by auto
  next
    case False
    with r have "r \<in> set dfs" by simp
    with ih r len other [OF False] show ?thesis by auto
  qed
  show ?case using a b c by blast
qed

lemma reduce_merge_Inr:
  assumes "reduce_merge st left rest = Inr (st', out)"
  shows "length st \<le> length st' \<and> (\<forall>r<length st. st' ! r = st ! r)
     \<and> (rest = [] \<longrightarrow> out = left \<and> st' = st) \<and> (rest \<noteq> [] \<longrightarrow> length st \<le> out)"
  using assms
proof (induction rest arbitrary: st left)
  case Nil
  then show ?case by simp
next
  case (Cons right rest)
  from Cons.prems obtain merged where
    m: "pd_merge_left (st ! left) (st ! right) = Inr merged"
    and r: "reduce_merge (st @ [merged]) (length st) rest = Inr (st', out)"
    by (auto simp: alloc_def split: sum.splits)
  note ih = Cons.IH [OF r]
  have "st' ! k = st ! k" if "k < length st" for k
    using ih that by (auto simp: nth_append)
  moreover have "length st \<le> length st'" using ih by simp
  moreover have "length st \<le> out" using ih by (cases "rest = []") auto
  ultimately show ?case by simp
qed

lemma merge_datasets_Inr:
  assumes "merge_datasets st dfs = Inr (st', out)"
  shows "length st \<le> length st'
    \<and> (\<forall>r<length st. r \<notin> set dfs \<longrightarrow> st' ! r = st ! r)
    \<and> (\<forall>r<length st. r \<in> set dfs \<longrightarrow>
          (\<exists>ds. map_of (st ! r) ''Date'' = Some (DatetimeCol ds)
             \<and> st' ! r = set_column (st ! r) ''Date'' (PeriodCol (map (map_option to_period) ds))))
    \<and> (2 \<le> length dfs \<longrightarrow> length st \<le> out)"
proof -
  from assms obtain st1 df rest where
    c: "dates_to_periods st dfs = Inr st1" and dfs: "dfs = df # rest"
    and r: "reduce_merge st1 df rest = Inr (st', out)"
    by (auto simp: merge_datasets_def split: sum.splits list.splits)
  note p = dates_to_periods_Inr [OF c] and q = reduce_merge_Inr [OF r]
  have l: "length st1 = length st" using p by simp
  have e: "st' ! k = st1 ! k" if "k < length st" for k using q that l by simp
  have a: "length st \<le> length st'" using q l by simp
  have b: "\<forall>r<length st. r \<notin> set dfs \<longrightarrow> st' ! r = st ! r"
    using p e by simp
  have d: "\<forall>r<length st. r \<in> set dfs \<longrightarrow>
          (\<exists>ds. map_of (st ! r) ''Date'' = Some (DatetimeCol ds)
             \<and> st' ! r = set_column (st ! r) ''Date'' (PeriodCol (map (map_option to_period) ds)))"
    using p e by simp
  have f: "2 \<le> length dfs \<longrightarrow> length st \<le> out"
  proof
    assume "2 \<le> length dfs"
    with dfs have "rest \<noteq> []" by auto
    with q l show "length st \<le> out" by simp
  qed
  from a b d f show ?thesis by (intro conjI)
qed

text \<open>
  Claim C5, amended: \<open>merge_datasets\<close> does change its input panels, in one column: when
  it returns, the \<open>Date\<close> column of every input panel has been replaced in place by its
  monthly period; the column labels of the input panels, all their other columns, and
  every panel of the store that is not in the list are unchanged, and with two or more
  inputs the merged panel is a newly allocated one.  The estimator is built on a copy of
  the merged panel: an estimation leaves every panel that existed before it unchanged.
\<close>

theorem merge_datasets_frame:
  "(merge_datasets st dfs = Inr (st', out) \<longrightarrow>
      length st \<le> length st'
      \<and> (\<forall>r<length st. r \<notin> set dfs \<longrightarrow> st' ! r = st ! r)
      \<and> (\<forall>r<length st. r \<in> set dfs \<longrightarrow>
          (\<exists>ds. map_of (st ! r) ''Date'' = Some (DatetimeCol ds)
             \<and> st' ! r = set_column (st ! r) ''Date'' (PeriodCol (map (map_option to_period) ds)))
          \<and> map fst (st' ! r) = map fst (st ! r)
          \<and> (\<forall>n. n \<noteq> ''Date'' \<longrightarrow> map_of (st' ! r) n = map_of (st ! r) n))
      \<and> (2 \<le> length dfs \<longrightarrow> length st \<le> out))
   \<and> (estimate_taylor_rule est_st panel source lag yr = Inr (est_st', ms) \<longrightarrow>
        (\<forall>r<length est_st. est_st' ! r = est_st ! r))"
proof (intro conjI impI)
  assume m: "merge_datasets st dfs = Inr (st', out)"
  note x = merge_datasets_Inr [OF m]
  from x show "length st \<le> length st'" by (rule conjunct1)
  from x show "\<forall>r<length st. r \<notin> set dfs \<longrightarrow> st' ! r = st ! r" by blast
  from x show "2 \<le> length dfs \<Longrightarrow> length st \<le> out" by blast
  show "\<forall>r<length st. r \<in> set dfs \<longrightarrow>
          (\<exists>ds. map_of (st ! r) ''Date'' = Some (DatetimeCol ds)
             \<and> st' ! r = set_column (st ! r) ''Date'' (PeriodCol (map (map_option to_period) ds)))
          \<and> map fst (st' ! r) = map fst (st ! r)
          \<and> (\<forall>n. n \<noteq> ''Date'' \<longrightarrow> map_of (st' ! r) n = map_of (st ! r) n)"
  proof (intro allI impI)
    fix r assume r: "r < length st" "r \<in> set dfs"
    with x obtain ds where ds: "map_of (st ! r) ''Date'' = Some (DatetimeCol ds)"
      "st' ! r = set_column (st ! r) ''Date'' (PeriodCol (map (map_option to_period) ds))"
      by blast
    have "map fst (st' ! r) = map fst (st ! r)" by (simp add: ds(2))
    moreover have "\<forall>n. n \<noteq> ''Date'' \<longrightarrow> map_of (st' ! r) n = map_of (st ! r) n"
      by (simp add: ds(2) map_of_set_column_other)
    ultimately show "(\<exists>ds. map_of (st ! r) ''Date'' = Some (DatetimeCol ds)
             \<and> st' ! r = set_column (st ! r) ''Date'' (PeriodCol (map (map_option to_period) ds)))
          \<and> map fst (st' ! r) = map fst (st ! r)
          \<and> (\<forall>n. n \<noteq> ''Date'' \<longrightarrow> map_of (st' ! r) n = map_of (st ! r) n)"
      using ds by blast
  qed
next
  assume "estimate_taylor_rule est_st panel source lag yr = Inr (est_st', ms)"
  then show "\<forall>r<length est_st. est_st' ! r = est_st ! r"
    using estimate_taylor_rule_frame by blast
qed

text \<open>
  Claim C5, as stated: \<open>merge_datasets\<close> leaves each input panel's columns and values
  unchanged.  After merging two panels of the policy rate, the first input panel is
  not what it was: its \<open>Date\<close> column, dates before, holds periods.
\<close>

theorem merge_datasets_mutates_counterexample:
  "(case merge_datasets [frame0, frame0] [0, 1] of
      Inl e \<Rightarrow> False
    | Inr (st', out) \<Rightarrow> st' ! 0 \<noteq> frame0
        \<and> map_of (st' ! 0) ''Date'' = Some (PeriodCol [Some 24240, Some 24241])
        \<and> map_of frame0 ''Date''
            = Some (DatetimeCol [Some (Timestamp 2020 1 31), Some (Timestamp 2020 2 29)]))"
  by code_simp

theorem merge_datasets_frame_witness:
  "(\<exists>ds. map_of frame0 ''Date'' = Some (DatetimeCol ds)
       \<and> fst (projr (merge_datasets [frame0, frame0] [0, 1])) ! 0
           = set_column frame0 ''Date'' (PeriodCol (map (map_option to_period) ds)))
   \<and> map_of (fst (projr (merge_datasets [frame0, frame0] [0, 1])) ! 0) ''selic_target''
       = map_of frame0 ''selic_target''
   \<and> fst (projr (estimate_taylor_rule [est_panel0] 0 ''market'' 1 (5, 12))) ! 0 = est_panel0"
proof -
  let ?M = "merge_datasets [frame0, frame0] [0, 1]"
  let ?E = "estimate_taylor_rule [est_panel0] 0 ''market'' 1 (5, 12)"
  have "\<not> isl ?M" by code_simp
  then have m: "?M = Inr (fst (projr ?M), snd (projr ?M))" by (simp del: One_nat_def)
  have "\<not> isl ?E" by code_simp
  then have e: "?E = Inr (fst (projr ?E), snd (projr ?E))" by (simp del: One_nat_def)
  note main = merge_datasets_frame [of "[frame0, frame0]" "[0, 1]" "fst (projr ?M)" "snd (projr ?M)"
      "[est_panel0]" 0 "''market''" 1 "(5, 12)" "fst (projr ?E)" "snd (projr ?E)"]
  from main m have a: "\<forall>r<length [frame0, frame0]. r \<in> set [0, 1] \<longrightarrow>
          (\<exists>ds. map_of ([frame0, frame0] ! r) ''Date'' = Some (DatetimeCol ds)
             \<and> fst (projr ?M) ! r
                = set_column ([frame0, frame0] ! r) ''Date'' (PeriodCol (map (map_option to_period) ds)))
          \<and> map fst (fst (projr ?M) ! r) = map fst ([frame0, frame0] ! r)
          \<and> (\<forall>n. n \<noteq> ''Date'' \<longrightarrow> map_of (fst (projr ?M) ! r) n = map_of ([frame0, frame0] ! r) n)"
    by blast
  from main e have b: "\<forall>r<length [est_panel0]. fst (projr ?E) ! r = [est_panel0] ! r"
    by blast
  from a [rule_format, of 0] have a0: "(\<exists>ds. map_of frame0 ''Date'' = Some (DatetimeCol ds)
             \<and> fst (projr ?M) ! 0 = set_column frame0 ''Date'' (PeriodCol (map (map_option to_period) ds)))
          \<and> (\<forall>n. n \<noteq> ''Date'' \<longrightarrow> map_of (fst (projr ?M) ! 0) n = map_of frame0 n)"
    by simp
  then have a1: "map_of (fst (projr ?M) ! 0) ''selic_target'' = map_of frame0 ''selic_target''"
    by simp
  from b have b0: "fst (projr ?E) ! 0 = est_panel0" by simp
  from a0 a1 b0 show ?thesis by blast
qed

text \<open>
  Claim C8, amended: for every panel \<open>A\<close> with distinct column labels, a datetime \<open>Date\<close>
  column whose months are unique, and columns of one length, held by two distinct
  frames: \<open>merge_datasets\<close> returns a new panel with the rows of \<open>A\<close> in their order,
  the key column \<open>Date\<close> once (as periods), and every non-key column of \<open>A\<close> twice, under
  its label suffixed \<open>_x\<close> and suffixed \<open>_y\<close>, both with the values of \<open>A\<close>.
\<close>

theorem merge_self_suffixes:
  assumes "r1 < length st" and "r2 < length st" and "r1 \<noteq> r2"
    and "st ! r1 = A" and "st ! r2 = A"
    and "distinct (map fst A)"
    and "map_of A ''Date'' = Some (DatetimeCol ds)"
    and "distinct (map (map_option to_period) ds)"
    and "\<forall>c\<in>set A. col_len (snd c) = length ds"
  shows "\<exists>st'. merge_datasets st [r1, r2] = Inr (st', length st)
     \<and> st' ! length st =
         (let A' = set_column A ''Date'' (PeriodCol (map (map_option to_period) ds))
          in map (\<lambda>c. (if fst c \<noteq> ''Date'' then fst c @ ''_x'' else fst c, snd c)) A'
             @ map (\<lambda>c. (fst c @ ''_y'', snd c)) (filter (\<lambda>c. fst c \<noteq> ''Date'') A'))"
proof -
  let ?K = "PeriodCol (map (map_option to_period) ds)"
  let ?A' = "set_column A ''Date'' ?K"
  let ?st1 = "st[r1 := ?A', r2 := ?A']"
  have c1: "date_to_period st r1 = Inr (st[r1 := ?A'])"
    using assms by (simp add: date_to_period_def)
  have c2: "date_to_period (st[r1 := ?A']) r2 = Inr ?st1"
    using assms by (simp add: date_to_period_def)
  have conv: "dates_to_periods st [r1, r2] = Inr ?st1"
    by (simp add: c1 c2)
  have g: "?st1 ! r1 = ?A'" "?st1 ! r2 = ?A'"
    using assms by simp_all
  have d: "distinct (map fst ?A')" using assms(6) by simp
  have k: "map_of ?A' ''Date'' = Some ?K"
    using map_of_set_column_same [OF assms(7)] .
  have u: "distinct (col_cells ?K)"
    using assms(8) by (simp add: distinct_map inj_on_def)
  have wf: "\<forall>c\<in>set ?A'. col_len (snd c) = col_len ?K"
    using assms(9) by (intro set_column_lens) simp_all
  note self = pd_merge_left_self [OF d k u wf]
  have "merge_datasets st [r1, r2] = reduce_merge ?st1 r1 [r2]"
    by (simp only: merge_datasets_def conv sum.case list.case)
  also have "\<dots> = Inr (?st1 @ [projr (pd_merge_left ?A' ?A')], length st)"
    by (simp add: g self alloc_def)
  finally show ?thesis
    by (simp add: self Let_def nth_append)
qed

text \<open>
  Claim C8, as stated: merging \<open>A\<close> with itself yields \<open>A\<close>, the duplicated non-key
  columns absent.  For the policy-rate panel the result has the columns \<open>Date\<close>,
  \<open>selic_target_x\<close> and \<open>selic_target_y\<close>, and no column \<open>selic_target\<close>.
\<close>

theorem merge_self_counterexample:
  "(case merge_datasets [frame0, frame0] [0, 1] of
      Inl e \<Rightarrow> False
    | Inr (st', out) \<Rightarrow>
        map fst (st' ! out) = [''Date'', ''selic_target_x'', ''selic_target_y'']
        \<and> map_of (st' ! out) ''selic_target'' = None
        \<and> map fst frame0 = [''Date'', ''selic_target''])"
  by code_simp

theorem merge_self_suffixes_witness:
  "\<exists>st'. merge_datasets [frame0, frame0] [0, 1] = Inr (st', 2)
     \<and> st' ! 2 = [(''Date'', PeriodCol [Some 24240, Some 24241]),
                  (''selic_target_x'', FloatCol [Some 4.5, Some 4.25]),
                  (''selic_target_y'', FloatCol [Some 4.5, Some 4.25])]"
proof -
  have h: "map_of frame0 ''Date''
      = Some (DatetimeCol [Some (Timestamp 2020 1 31), Some (Timestamp 2020 2 29)])"
    "distinct (map fst frame0)"
    "distinct (map (map_option to_period) [Some (Timestamp 2020 1 31), Some (Timestamp 2020 2 29)])"
    "\<forall>c\<in>set frame0. col_len (snd c)
        = length [Some (Timestamp 2020 1 31), Some (Timestamp 2020 2 29)]"
    by (simp_all add: frame0_def to_period_def)
  from merge_self_suffixes [of 0 "[frame0, frame0]" 1 frame0, OF _ _ _ _ _ h(2) h(1) h(3) h(4)]
  show ?thesis
    by (simp add: frame0_def set_column_def to_period_def numeral_2_eq_2)
qed


text \<open>Passing the same frame object twice fails at the second conversion of its dates.\<close>

lemma merge_same_object:
  "merge_datasets [frame0] [0, 0] = Inl (AttributeError ''to_period'')"
  by code_simp

section \<open>The monthly index of the normalizer stages\<close>

lemma to_period_month_start: "to_period (month_start p) = p"
proof -
  have "0 \<le> p mod 12" by simp
  then have "int (nat (p mod 12)) = p mod 12" by simp
  then show ?thesis
    by (simp add: to_period_def month_start_def)
qed

lemma to_period_month_end: "to_period (month_end p) = p"
proof -
  have "0 \<le> p mod 12" by simp
  then have "int (nat (p mod 12)) = p mod 12" by simp
  then show ?thesis
    by (simp add: to_period_def month_end_def)
qed

lemma contiguous_months_nth:
  "contiguous_months ps \<longleftrightarrow> (\<forall>k. Suc k < length ps \<longrightarrow> ps ! Suc k = ps ! k + 1)"
proof (induction ps rule: contiguous_months.induct)
  case 1
  then show ?case by simp
next
  case (2 p)
  then show ?case by simp
next
  case (3 p q ps)
  show ?case
  proof
    assume a: "contiguous_months (p # q # ps)"
    note b = iffD1 [OF contiguous_months.simps(3) a]
    have q: "q = p + 1" using b by (rule conjunct1)
    have r: "contiguous_months (q # ps)" using b by (rule conjunct2)
    show "\<forall>k. Suc k < length (p # q # ps) \<longrightarrow> (p # q # ps) ! Suc k = (p # q # ps) ! k + 1"
    proof (intro allI impI)
      fix k assume k: "Suc k < length (p # q # ps)"
      show "(p # q # ps) ! Suc k = (p # q # ps) ! k + 1"
      proof (cases k)
        case 0
        with q show ?thesis by simp
      next
        case (Suc j)
        with k r 3 show ?thesis by simp
      qed
    qed
  next
    assume a: "\<forall>k. Suc k < length (p # q # ps) \<longrightarrow> (p # q # ps) ! Suc k = (p # q # ps) ! k + 1"
    from a [rule_format, of 0] have q: "q = p + 1" by simp
    have "\<forall>k. Suc k < length (q # ps) \<longrightarrow> (q # ps) ! Suc k = (q # ps) ! k + 1"
    proof (intro allI impI)
      fix k assume "Suc k < length (q # ps)"
      with a [rule_format, of "Suc k"] show "(q # ps) ! Suc k = (q # ps) ! k + 1" by simp
    qed
    with 3 q show "contiguous_months (p # q # ps)" by simp
  qed
qed

lemma contiguous_upto: "contiguous_months [i..j]"
  unfolding contiguous_months_nth by auto

lemma first_month_Min: "ps \<noteq> [] \<Longrightarrow> first_month ps = Min (set ps)"
proof (cases ps)
  case Nil
  assume "ps \<noteq> []"
  with Nil show ?thesis by simp
next
  case (Cons a list)
  show ?thesis
    unfolding first_month_def Cons by (simp only: list.sel Min.set_eq_fold)
qed

lemma last_month_Max: "ps \<noteq> [] \<Longrightarrow> last_month ps = Max (set ps)"
proof (cases ps)
  case Nil
  assume "ps \<noteq> []"
  with Nil show ?thesis by simp
next
  case (Cons a list)
  show ?thesis
    unfolding last_month_def Cons by (simp only: list.sel Max.set_eq_fold)
qed

lemma month_range_props:
  "contiguous_months (month_range ps)" "distinct (month_range ps)"
  "ps \<noteq> [] \<Longrightarrow> month_range ps = [Min (set ps)..Max (set ps)]"
  by (simp_all add: month_range_def contiguous_upto first_month_Min last_month_Max)

lemma resample_MS_asfreq_index:
  "resample_MS_asfreq rows = Inr monthly \<Longrightarrow> map fst monthly = month_range (map fst rows)"
  by (auto simp: resample_MS_asfreq_def comp_def split: if_splits)

lemma length_interpolate_linear [simp]: "length (interpolate_linear xs) = length xs"
  by (simp add: interpolate_linear_def)

lemma map_fst_zip_same: "length ys = length xs \<Longrightarrow> map (\<lambda>(r, v). f r) (zip xs ys) = map f xs"
  by (induction xs arbitrary: ys) (auto simp: length_Suc_conv)

lemma interpolate_quartely_index:
  assumes "interpolate_quartely_data df = Inr out"
  shows "map (\<lambda>r. to_period (bcb_Date r)) out = month_range (map fst df)"
proof -
  from assms obtain monthly where m: "resample_MS_asfreq df = Inr monthly"
    and out: "out = map (\<lambda>(r, v). \<lparr>bcb_Date = month_start (fst r), bcb_value = v\<rparr>)
       (zip monthly (interpolate_linear
          (map (\<lambda>r. case snd r of None \<Rightarrow> None | Some v \<Rightarrow> v) monthly)))"
    by (auto simp: interpolate_quartely_data_def Let_def split: sum.splits)
  have "map (\<lambda>r. to_period (bcb_Date r)) out
      = map (\<lambda>(r, v). fst r) (zip monthly (interpolate_linear
          (map (\<lambda>r. case snd r of None \<Rightarrow> None | Some v \<Rightarrow> v) monthly)))"
    by (simp add: out to_period_month_start comp_def case_prod_unfold)
  also have "\<dots> = map fst monthly"
    by (rule map_fst_zip_same) simp
  finally show ?thesis using resample_MS_asfreq_index [OF m] by simp
qed

lemma resample_daily_index:
  "map (\<lambda>r. to_period (selic_Date r)) (resample_daily_to_monthly df)
     = month_range (map (\<lambda>r. to_period (fst r)) df)"
  by (simp add: resample_daily_to_monthly_def comp_def to_period_month_end)

lemma resample_annual_index:
  assumes "resample_annualy_to_monthly df = Inr out"
  shows "map (\<lambda>r. to_period (tr_Date r)) out = month_range (map fst (annual_keyed df))"
proof -
  from resample_annual_rows [OF assms] obtain monthly where
    m: "resample_MS_asfreq (annual_keyed df) = Inr monthly" and
    l: "length out = length monthly" and
    r: "\<And>k. k < length monthly \<Longrightarrow> tr_Date (out ! k) = month_start (fst (monthly ! k))"
    by auto
  have "map (\<lambda>r. to_period (tr_Date r)) out = map fst monthly"
    using l r by (intro nth_equalityI) (simp_all add: to_period_month_start)
  with resample_MS_asfreq_index [OF m] show ?thesis by simp
qed

lemma filter_expected_is_filter:
  assumes "filter_expected_inflation_dates (map DateText dates) (parsed_rows df) = Inr out"
  shows "\<exists>P. out = filter P df"
proof (cases "dates = []")
  case True
  with assms show ?thesis by (simp add: filter_expected_inflation_dates_def)
next
  case False
  have r: "\<exists>P. rows_at_offset dates df k = filter P df" for k
    unfolding rows_at_offset_def isin_rows_def by blast
  have e: "\<exists>P. [] = filter P df" by (rule exI [of _ "\<lambda>r. False"]) simp
  from filter_expected_find [OF False, of df] assms
  have "out = (case find (\<lambda>k. rows_at_offset dates df k \<noteq> []) [1..<8] of None \<Rightarrow> []
      | Some k \<Rightarrow> rows_at_offset dates df k)" by simp
  then show ?thesis using r e by (auto split: option.splits)
qed

text \<open>
  Claim C7, amended: the output of the three resampling stages (quarterly
  interpolation, daily resampling, annual forward-fill) has a date index whose months
  are the month range of the input: a contiguous monthly sequence without duplicate
  months, from the earliest to the latest observed month.  Event alignment does not
  put its output on the monthly calendar: it returns a selection of the survey rows, in
  their order and with their own daily dates.
\<close>

theorem normalizer_monthly_index:
  "(interpolate_quartely_data qdf = Inr qout \<longrightarrow>
      map (\<lambda>r. to_period (bcb_Date r)) qout = month_range (map fst qdf))
   \<and> map (\<lambda>r. to_period (selic_Date r)) (resample_daily_to_monthly ddf)
       = month_range (map (\<lambda>r. to_period (fst r)) ddf)
   \<and> (resample_annualy_to_monthly adf = Inr aout \<longrightarrow>
      map (\<lambda>r. to_period (tr_Date r)) aout = month_range (map fst (annual_keyed adf)))
   \<and> contiguous_months (month_range ps)
   \<and> distinct (month_range ps)
   \<and> (ps \<noteq> [] \<longrightarrow> month_range ps = [Min (set ps)..Max (set ps)])
   \<and> (filter_expected_inflation_dates (map DateText dates) (parsed_rows sdf) = Inr fout \<longrightarrow>
        (\<exists>P. fout = filter P sdf))"
  using interpolate_quartely_index [of qdf qout] resample_daily_index [of ddf]
    resample_annual_index [of adf aout] month_range_props [of ps]
    filter_expected_is_filter [of dates sdf fout]
  by (intro conjI impI) assumption+

text \<open>
  Claim C7, as stated: the output of every stage, event alignment included, has a
  contiguous monthly index.  Meetings on 31 January and 20 March 2024 with survey rows
  on their eves: the output has a row of January and a row of March and none of
  February.
\<close>

theorem event_alignment_not_monthly_counterexample:
  "(case filter_expected_inflation_dates
            [DateText (Timestamp 2024 1 31), DateText (Timestamp 2024 3 20)]
            [(DateText (Timestamp 2024 1 30), 4::int), (DateText (Timestamp 2024 3 19), 39)] of
      Inl e \<Rightarrow> False
    | Inr out \<Rightarrow> map (\<lambda>r. to_period (fst r)) out = [2024 * 12, 2024 * 12 + 2]
        \<and> \<not> contiguous_months (map (\<lambda>r. to_period (fst r)) out))"
  by code_simp

theorem normalizer_monthly_index_witness:
  "map (\<lambda>r. to_period (bcb_Date r)) (projr (interpolate_quartely_data quarterly0))
      = month_range (map fst quarterly0)
   \<and> map (\<lambda>r. to_period (selic_Date r)) (resample_daily_to_monthly daily0)
      = [2020 * 12, 2020 * 12 + 1, 2020 * 12 + 2]
   \<and> map (\<lambda>r. to_period (tr_Date r)) (projr (resample_annualy_to_monthly targets0))
      = month_range (map fst (annual_keyed targets0))
   \<and> month_range (map fst quarterly0) = [2020 * 12 + 2..2020 * 12 + 8]
   \<and> contiguous_months (month_range (map fst quarterly0))"
proof -
  let ?Q = "interpolate_quartely_data quarterly0"
  let ?A = "resample_annualy_to_monthly targets0"
  have "\<not> isl ?Q" by code_simp
  then have q: "?Q = Inr (projr ?Q)" by simp
  have "\<not> isl ?A" by code_simp
  then have a: "?A = Inr (projr ?A)" by simp
  have d: "month_range (map (\<lambda>r. to_period (fst r)) daily0)
      = [2020 * 12, 2020 * 12 + 1, 2020 * 12 + 2]" by code_simp
  have n: "map fst quarterly0 \<noteq> []" by (simp add: quarterly0_def)
  have mm: "Min (set (map fst quarterly0)) = 2020 * 12 + 2"
    "Max (set (map fst quarterly0)) = 2020 * 12 + 8"
    by (simp_all add: quarterly0_def)
  note main = normalizer_monthly_index [of quarterly0 "projr ?Q" daily0 targets0 "projr ?A"
      "map fst quarterly0" "[Timestamp 2024 3 20]" "[]" "[]"]
  from main q have c1: "map (\<lambda>r. to_period (bcb_Date r)) (projr ?Q)
      = month_range (map fst quarterly0)" by blast
  from main have c2: "map (\<lambda>r. to_period (selic_Date r)) (resample_daily_to_monthly daily0)
       = month_range (map (\<lambda>r. to_period (fst r)) daily0)" by blast
  from main a have c3: "map (\<lambda>r. to_period (tr_Date r)) (projr ?A)
      = month_range (map fst (annual_keyed targets0))" by blast
  from main n have c4: "month_range (map fst quarterly0)
      = [Min (set (map fst quarterly0))..Max (set (map fst quarterly0))]" by blast
  from main have c5: "contiguous_months (month_range (map fst quarterly0))" by blast
  from c1 c2 [unfolded d] c3 c4 [unfolded mm] c5 show ?thesis by (intro conjI)
qed

end
